theory Spec2Isabelle
  imports Main
begin

section \<open>Exceptions\<close>

text \<open>
  The exception classes of the DB-API taxonomy that \<^verbatim>\<open>pgdb.py\<close> imports from the
  native module, and the built-in Python exceptions that its code can meet.
  \<open>Error\<close> is the root of \<open>InterfaceError\<close> and \<open>DatabaseError\<close>, and \<open>DatabaseError\<close> the
  root of the six database classes; \<open>Warning\<close>, as the native module creates it, is a
  subclass of Python's \<open>Exception\<close> beside \<open>Error\<close>, not below it. \<open>OtherException\<close>
  stands for every further subclass of \<open>Exception\<close>.
\<close>

datatype exc_class =
    Error | Warning | InterfaceError
  | DatabaseError | DataError | OperationalError | IntegrityError
  | InternalError | ProgrammingError | NotSupportedError
  | ValueError | TypeError | KeyError | IndexError | NameError | OtherException

datatype exc = Exc (cls: exc_class) (msg: string)

text \<open>\<^verbatim>\<open>except DatabaseError\<close>: the class itself and its subclasses.\<close>

fun is_DatabaseError :: "exc_class \<Rightarrow> bool" where
  "is_DatabaseError DatabaseError = True"
| "is_DatabaseError DataError = True"
| "is_DatabaseError OperationalError = True"
| "is_DatabaseError IntegrityError = True"
| "is_DatabaseError InternalError = True"
| "is_DatabaseError ProgrammingError = True"
| "is_DatabaseError NotSupportedError = True"
| "is_DatabaseError _ = False"

text \<open>\<^verbatim>\<open>except Error\<close>: the class itself and its subclasses, so not \<open>Warning\<close>.\<close>

fun is_Error :: "exc_class \<Rightarrow> bool" where
  "is_Error Error = True"
| "is_Error InterfaceError = True"
| "is_Error c = is_DatabaseError c"

text \<open>
  \<^verbatim>\<open>_db_error(msg, cls)\<close> and \<^verbatim>\<open>_op_error(msg)\<close>. The \<open>sqlstate\<close> attribute they set is
  always \<open>None\<close> and is not represented.
\<close>

definition db_error :: "string \<Rightarrow> exc_class \<Rightarrow> exc" where
  "db_error m c = Exc c m"

definition op_error :: "string \<Rightarrow> exc" where
  "op_error m = db_error m OperationalError"

section \<open>Python values\<close>

text \<open>
  A float is one of the three IEEE sentinels or a finite value, kept as sign, mantissa
  and binary exponent. The code only asks \<open>isinf\<close>, \<open>isnan\<close> and \<open>val < 0\<close> of it.
\<close>

datatype pyfloat = Finite (fneg: bool) (fmant: nat) (fexp: int) | PInf | NInf | NaN

fun isinf :: "pyfloat \<Rightarrow> bool" where
  "isinf PInf = True"
| "isinf NInf = True"
| "isinf _ = False"

fun isnan :: "pyfloat \<Rightarrow> bool" where
  "isnan NaN = True"
| "isnan _ = False"

fun float_lt_zero :: "pyfloat \<Rightarrow> bool" where
  "float_lt_zero NInf = True"
| "float_lt_zero (Finite sg m e) = (sg \<and> m \<noteq> 0)"
| "float_lt_zero _ = False"

fun float_neg :: "pyfloat \<Rightarrow> pyfloat" where
  "float_neg PInf = NInf"
| "float_neg NInf = PInf"
| "float_neg NaN = NaN"
| "float_neg (Finite sg m e) = Finite (\<not> sg) m e"

text \<open>
  The runtime kinds of value that reach the quoting code. A date, time, datetime or
  timedelta is kept as the text \<open>str\<close> gives for it, a value of the configured decimal
  type likewise; \<open>VBinary\<close> is the module's \<open>Binary\<close> wrapper; \<open>VPgRepr r\<close> is an object
  with a \<open>__pg_repr__\<close> method that returns \<open>r\<close>; \<open>VOther t\<close> is any other object, \<open>t\<close>
  being the text of its type.
\<close>

datatype pyval =
    VNone
  | VBool bool
  | VInt int
  | VFloat pyfloat
  | VStr string
  | VBinary string
  | VDateTime string
  | VDecimal string
  | VList "pyval list"
  | VTuple "pyval list"
  | VDict "(string \<times> pyval) list"
  | VPgRepr pyval
  | VOther string

text \<open>
  What the module takes from the Python runtime and from \<^verbatim>\<open>from _pg import *\<close>, as
  parameters: the built-ins \<open>float\<close>, \<open>int\<close> and the decimal constructor applied to a
  text (\<open>Inl\<close> is the exception they raise), \<open>str\<close>, the \<open>%\<close> operator on a tuple and on
  a mapping, truth value and iteration of objects, the text of \<open>type(val)\<close>,
  \<open>unescape_bytea\<close>, and the names \<open>nan\<close> and \<open>inf\<close>, which \<^verbatim>\<open>_cast_float\<close> reads and
  \<^verbatim>\<open>pgdb.py\<close> itself never binds (\<open>None\<close>: the name is unbound).
\<close>

record pyenv =
  py_float :: "string \<Rightarrow> exc + pyfloat"
  py_int :: "string \<Rightarrow> exc + int"
  py_decimal :: "string \<Rightarrow> exc + pyval"
  py_str :: "pyval \<Rightarrow> string"
  fmt_tuple :: "string \<Rightarrow> pyval list \<Rightarrow> exc + string"
  fmt_mapping :: "string \<Rightarrow> (string \<Rightarrow> exc + pyval) \<Rightarrow> exc + string"
  truth_other :: "pyval \<Rightarrow> bool"
  iter_other :: "pyval \<Rightarrow> pyval list option"
  py_type :: "pyval \<Rightarrow> string"
  unescape_bytea :: "string \<Rightarrow> string"
  name_nan :: "pyfloat option"
  name_inf :: "pyfloat option"

definition apos :: char where
  "apos = CHR 0x27"

text \<open>\<^verbatim>\<open>"'%s'" % val\<close>\<close>

definition squote :: "string \<Rightarrow> string" where
  "squote s = apos # s @ [apos]"

text \<open>\<open>str\<close> of an integer: its decimal digits.\<close>

fun show_nat :: "nat \<Rightarrow> string" where
  "show_nat n =
     (if n < 10 then [''0123456789'' ! n]
      else show_nat (n div 10) @ [''0123456789'' ! (n mod 10)])"

definition show_int :: "int \<Rightarrow> string" where
  "show_int i = (if i < 0 then CHR ''-'' # show_nat (nat (- i)) else show_nat (nat i))"

text \<open>\<^verbatim>\<open>sep.join(xs)\<close>\<close>

fun join :: "string \<Rightarrow> string list \<Rightarrow> string" where
  "join sep [] = []"
| "join sep [x] = x"
| "join sep (x # y # ys) = x @ sep @ join sep (y # ys)"

text \<open>\<open>str(v)\<close>: spelled out for the kinds whose text the model holds, the built-in otherwise.\<close>

fun str_of :: "pyenv \<Rightarrow> pyval \<Rightarrow> string" where
  "str_of E (VStr s) = s"
| "str_of E (VInt i) = show_int i"
| "str_of E (VBool b) = (if b then ''True'' else ''False'')"
| "str_of E VNone = ''None''"
| "str_of E (VDateTime s) = s"
| "str_of E (VDecimal s) = s"
| "str_of E v = py_str E v"

text \<open>The truth value of \<^verbatim>\<open>if parameters:\<close>.\<close>

fun truthy :: "pyenv \<Rightarrow> pyval \<Rightarrow> bool" where
  "truthy E VNone = False"
| "truthy E (VBool b) = b"
| "truthy E (VInt i) = (i \<noteq> 0)"
| "truthy E (VFloat (Finite sg m e)) = (m \<noteq> 0)"
| "truthy E (VFloat f) = True"
| "truthy E (VStr s) = (s \<noteq> [])"
| "truthy E (VBinary s) = (s \<noteq> [])"
| "truthy E (VList xs) = (xs \<noteq> [])"
| "truthy E (VTuple xs) = (xs \<noteq> [])"
| "truthy E (VDict d) = (d \<noteq> [])"
| "truthy E v = truth_other E v"

text \<open>Iterating a value, as \<open>map\<close> does: \<open>None\<close> when it is not iterable.\<close>

fun iterate :: "pyenv \<Rightarrow> pyval \<Rightarrow> pyval list option" where
  "iterate E (VList xs) = Some xs"
| "iterate E (VTuple xs) = Some xs"
| "iterate E (VStr s) = Some (map (\<lambda>c. VStr [c]) s)"
| "iterate E v = iter_other E v"

section \<open>The native connection\<close>

text \<open>
  The \<^verbatim>\<open>_pg\<close> connection and its source objects are outside the module. The model keeps
  the list of calls issued to them so far; the native side is a parameter that gives,
  for the calls issued before and the call made now, what that call returns or raises.

  A source object is named by the place that holds it: the temporary one that
  \<^verbatim>\<open>self._cnx.source()\<close> yields for a transaction command, the \<open>_src\<close> of a cursor (numbered
  by the \<open>source()\<close> calls made before its creation), the \<open>_src\<close> of the type cache.
\<close>

datatype handle = TnxSrc | CursorSrc nat | CacheSrc

datatype call =
    NewSource
  | Execute handle string
  | Fetch handle int
  | CloseCnx

datatype result_type = RESULT_EMPTY | RESULT_DML | RESULT_DDL | RESULT_DQL

text \<open>
  \<open>execute_reply\<close>: \<^verbatim>\<open>source.execute(sql)\<close> returns \<open>None\<close> for a row-returning statement
  and a number otherwise. \<open>fetch_reply\<close>: raw rows, each value a text or \<open>None\<close>.
  \<open>listinfo\<close>: per column its index, name and type oid.
\<close>

record native =
  source_reply :: "call list \<Rightarrow> exc option"
  execute_reply :: "call list \<Rightarrow> handle \<Rightarrow> string \<Rightarrow> exc + int option"
  fetch_reply :: "call list \<Rightarrow> handle \<Rightarrow> int \<Rightarrow> exc + string option list list"
  close_reply :: "call list \<Rightarrow> exc option"
  resulttype :: "call list \<Rightarrow> handle \<Rightarrow> result_type"
  ntuples :: "call list \<Rightarrow> handle \<Rightarrow> int"
  listinfo :: "call list \<Rightarrow> handle \<Rightarrow> exc + (int \<times> string \<times> int) list"
  oidstatus :: "call list \<Rightarrow> handle \<Rightarrow> exc + int option"
  escape_string :: "string \<Rightarrow> string"
  escape_bytea :: "string \<Rightarrow> string"

section \<open>Typecasts\<close>

definition cast_bool :: "string \<Rightarrow> pyval" where
  "cast_bool v = VBool (take 1 v = ''t'' \<or> take 1 v = ''T'')"

definition cast_money :: "pyenv \<Rightarrow> string \<Rightarrow> exc + pyval" where
  "cast_money E v = py_decimal E (filter (\<lambda>c. c \<in> set ''0123456789.-'') v)"

definition cast_bytea :: "pyenv \<Rightarrow> string \<Rightarrow> pyval" where
  "cast_bytea E v = VStr (unescape_bytea E v)"

text \<open>
  \<^verbatim>\<open>_cast_float\<close>: the handler runs when \<open>float(value)\<close> raises \<open>ValueError\<close>; reading an
  unbound \<open>nan\<close> or \<open>inf\<close> there is a \<open>NameError\<close>; the bare \<open>raise\<close> re-raises.
\<close>

definition read_name :: "string \<Rightarrow> pyfloat option \<Rightarrow> exc + pyfloat" where
  "read_name n b =
     (case b of
        None \<Rightarrow> Inl (Exc NameError (''name '' @ squote n @ '' is not defined''))
      | Some x \<Rightarrow> Inr x)"

definition cast_float :: "pyenv \<Rightarrow> string \<Rightarrow> exc + pyfloat" where
  "cast_float E v =
     (case py_float E v of
        Inr x \<Rightarrow> Inr x
      | Inl e \<Rightarrow>
          if cls e = ValueError then
            if v = ''NaN'' then read_name ''nan'' (name_nan E)
            else if v = ''Infinity'' then read_name ''inf'' (name_inf E)
            else if v = ''-Infinity'' then map_sum id float_neg (read_name ''inf'' (name_inf E))
            else Inl e
          else Inl e)"

text \<open>
  The \<^verbatim>\<open>_cast\<close> table, by type name. \<open>int\<close> and \<open>long\<close> both read an integer of
  unbounded size.
\<close>

datatype caster =
  CastBool | CastBytea | CastInt | CastLong | CastFloat | CastDecimal | CastMoney

definition cast_table :: "string \<Rightarrow> caster option" where
  "cast_table = map_of
     [(''bool'', CastBool), (''bytea'', CastBytea),
      (''int2'', CastInt), (''int4'', CastInt), (''serial'', CastInt),
      (''int8'', CastLong), (''oid'', CastLong), (''oid8'', CastLong),
      (''float4'', CastFloat), (''float8'', CastFloat),
      (''numeric'', CastDecimal), (''money'', CastMoney)]"

fun apply_cast :: "pyenv \<Rightarrow> caster \<Rightarrow> string \<Rightarrow> exc + pyval" where
  "apply_cast E CastBool v = Inr (cast_bool v)"
| "apply_cast E CastBytea v = Inr (cast_bytea E v)"
| "apply_cast E CastInt v = map_sum id VInt (py_int E v)"
| "apply_cast E CastLong v = map_sum id VInt (py_int E v)"
| "apply_cast E CastFloat v = map_sum id VFloat (cast_float E v)"
| "apply_cast E CastDecimal v = py_decimal E v"
| "apply_cast E CastMoney v = cast_money E v"

text \<open>\<^verbatim>\<open>TypeCache.typecast(typ, value)\<close>\<close>

definition typecast :: "pyenv \<Rightarrow> string \<Rightarrow> string option \<Rightarrow> exc + pyval" where
  "typecast E typ v =
     (case v of
        None \<Rightarrow> Inr VNone
      | Some t \<Rightarrow>
          (case cast_table typ of
             None \<Rightarrow> Inr (VStr t)
           | Some c \<Rightarrow> apply_cast E c t))"

section \<open>Quoting\<close>

text \<open>
  \<^verbatim>\<open>Cursor._quote\<close>. The \<open>isinstance\<close> tests run in the source's order: a date or time
  value becomes its text and is then handled as text; \<open>bool\<close> is an \<open>int\<close>; a finite
  float, an integer and a decimal are returned as they are; \<open>quote_each\<close> is the
  \<open>map\<close> over the elements, which stops at the first element that raises.
\<close>

fun quote :: "native \<Rightarrow> pyenv \<Rightarrow> pyval \<Rightarrow> exc + pyval"
  and quote_each :: "native \<Rightarrow> pyenv \<Rightarrow> pyval list \<Rightarrow> exc + pyval list" where
  "quote N E (VDateTime s) = Inr (VStr (squote (escape_string N s)))"
| "quote N E (VBinary b) = Inr (VStr (squote (escape_bytea N b)))"
| "quote N E (VStr s) = Inr (VStr (squote (escape_string N s)))"
| "quote N E (VInt i) = Inr (VInt i)"
| "quote N E (VBool b) = Inr (VBool b)"
| "quote N E (VFloat f) =
     (if isinf f then Inr (VStr (if float_lt_zero f then squote ''-Infinity'' else squote ''Infinity''))
      else if isnan f then Inr (VStr (squote ''NaN''))
      else Inr (VFloat f))"
| "quote N E VNone = Inr (VStr ''NULL'')"
| "quote N E (VList xs) =
     (case quote_each N E xs of
        Inl e \<Rightarrow> Inl e
      | Inr qs \<Rightarrow> Inr (VStr (''('' @ join '','' (map (str_of E) qs) @ '')'')))"
| "quote N E (VTuple xs) =
     (case quote_each N E xs of
        Inl e \<Rightarrow> Inl e
      | Inr qs \<Rightarrow> Inr (VStr (''('' @ join '','' (map (str_of E) qs) @ '')'')))"
| "quote N E (VDecimal d) = Inr (VDecimal d)"
| "quote N E (VPgRepr r) = Inr r"
| "quote N E v =
     Inl (Exc InterfaceError (''do not know how to handle type '' @ py_type E v))"
| "quote_each N E [] = Inr []"
| "quote_each N E (x # xs) =
     (case quote N E x of
        Inl e \<Rightarrow> Inl e
      | Inr q \<Rightarrow>
          (case quote_each N E xs of
             Inl e \<Rightarrow> Inl e
           | Inr qs \<Rightarrow> Inr (q # qs)))"

text \<open>
  \<^verbatim>\<open>_quotedict.__getitem__\<close>: the stored item, quoted; a missing key is the dict's
  \<open>KeyError\<close>.
\<close>

definition quotedict_getitem :: "native \<Rightarrow> pyenv \<Rightarrow> (string \<times> pyval) list \<Rightarrow> string \<Rightarrow> exc + pyval" where
  "quotedict_getitem N E d k =
     (case map_of d k of
        None \<Rightarrow> Inl (Exc KeyError k)
      | Some v \<Rightarrow> quote N E v)"

text \<open>\<^verbatim>\<open>Cursor._quoteparams\<close>\<close>

definition quoteparams :: "native \<Rightarrow> pyenv \<Rightarrow> string \<Rightarrow> pyval \<Rightarrow> exc + string" where
  "quoteparams N E string parameters =
     (case parameters of
        VDict d \<Rightarrow> fmt_mapping E string (quotedict_getitem N E d)
      | _ \<Rightarrow>
          (case iterate E parameters of
             None \<Rightarrow> Inl (Exc TypeError (py_type E parameters @ '' object is not iterable''))
           | Some vs \<Rightarrow>
               (case quote_each N E vs of
                  Inl e \<Rightarrow> Inl e
                | Inr qs \<Rightarrow> fmt_tuple E string qs)))"

section \<open>Connection and cursor state\<close>

text \<open>
  A type cache entry is the tuple \<open>(typname, None, typlen, None, None, None)\<close> and a
  column descriptor the named tuple \<open>CursorDescription\<close>; the positions that the module
  always fills with \<open>None\<close> are left out.
\<close>

datatype type_descr = TypeDescr (typname: "string option") (typlen: int)

datatype column =
  CursorDescription (name: string) (type_code: "string option") (internal_size: int)

datatype native_cnx = NativeCnx

text \<open>
  The \<open>Connection\<close> object: \<open>_cnx\<close> (the native handle, or \<open>None\<close> once closed), \<open>_tnx\<close>
  and the type cache, a dict from type oid to descriptor. \<open>issued\<close> is the list of
  calls made on the native connection and its sources so far.
\<close>

record state =
  cnx :: "native_cnx option"
  tnx :: bool
  type_cache :: "int \<rightharpoonup> type_descr"
  issued :: "call list"

text \<open>
  The attributes of a \<open>Cursor\<close>. Its \<open>_dbcnx\<close> is the connection of the state it is run
  with and its \<open>_cnx\<close> the native handle, which it keeps when the connection is closed;
  \<open>src\<close> is the number of its source object \<open>_src\<close>.
  \<open>row_factory\<close> holds the column names that the default \<open>build_row_factory\<close> made the
  named tuple from, or \<open>None\<close>.
\<close>

record cursor =
  src :: nat
  description :: "column list option"
  colnames :: "string list option"
  coltypes :: "string option list option"
  rowcount :: int
  arraysize :: int
  lastrowid :: "int option"
  row_factory :: "string list option"

datatype ret = RetNone | RetSelf

section \<open>Type cache\<close>

definition lookup_sql :: "int \<Rightarrow> string" where
  "lookup_sql oid = ''SELECT typname, typlen FROM pg_type WHERE oid='' @ show_int oid"

text \<open>
  \<^verbatim>\<open>res = self._src.fetch(1)[0]\<close> and \<^verbatim>\<open>(res[0], None, int(res[1]), None, None, None)\<close>:
  \<open>IndexError\<close> when no row came back or the row has fewer than two values,
  \<open>TypeError\<close> from \<open>int(None)\<close>, and whatever \<open>int\<close> raises on the text.
\<close>

definition descr_of_rows :: "pyenv \<Rightarrow> string option list list \<Rightarrow> exc + type_descr" where
  "descr_of_rows E rows =
     (case rows of
        [] \<Rightarrow> Inl (Exc IndexError ''list index out of range'')
      | res # _ \<Rightarrow>
          (case res of
             tn # ln # _ \<Rightarrow>
               (case ln of
                  None \<Rightarrow> Inl (Exc TypeError ''int() argument must be a string or a number'')
                | Some t \<Rightarrow> map_sum id (TypeDescr tn) (py_int E t))
           | _ \<Rightarrow> Inl (Exc IndexError ''tuple index out of range'')))"

text \<open>
  \<^verbatim>\<open>TypeCache.getdescr\<close>: a hit returns the stored entry; a miss runs the catalog query
  on the cache's own source, builds the entry from the first row of \<open>fetch(1)\<close> and
  stores it. An exception on the way leaves the dict as it was.
\<close>

definition getdescr :: "native \<Rightarrow> pyenv \<Rightarrow> int \<Rightarrow> state \<Rightarrow> (exc + type_descr) \<times> state" where
  "getdescr N E oid s =
     (case type_cache s oid of
        Some d \<Rightarrow> (Inr d, s)
      | None \<Rightarrow>
          (case execute_reply N (issued s) CacheSrc (lookup_sql oid) of
             Inl e \<Rightarrow> (Inl e, s\<lparr>issued := issued s @ [Execute CacheSrc (lookup_sql oid)]\<rparr>)
           | Inr _ \<Rightarrow>
               (case fetch_reply N (issued s @ [Execute CacheSrc (lookup_sql oid)]) CacheSrc 1 of
                  Inl e \<Rightarrow>
                    (Inl e,
                     s\<lparr>issued := issued s @ [Execute CacheSrc (lookup_sql oid), Fetch CacheSrc 1]\<rparr>)
                | Inr rows \<Rightarrow>
                    (case descr_of_rows E rows of
                       Inl e \<Rightarrow>
                         (Inl e,
                          s\<lparr>issued := issued s @ [Execute CacheSrc (lookup_sql oid), Fetch CacheSrc 1]\<rparr>)
                     | Inr d \<Rightarrow>
                         (Inr d,
                          s\<lparr>issued := issued s @ [Execute CacheSrc (lookup_sql oid), Fetch CacheSrc 1],
                            type_cache := (type_cache s)(oid \<mapsto> d)\<rparr>)))))"

section \<open>Connection\<close>

text \<open>\<^verbatim>\<open>self._cnx.source().execute(sql)\<close>: a new source, then the command on it.\<close>

definition source_execute :: "native \<Rightarrow> string \<Rightarrow> state \<Rightarrow> exc option \<times> state" where
  "source_execute N sql s =
     (case source_reply N (issued s) of
        Some e \<Rightarrow> (Some e, s\<lparr>issued := issued s @ [NewSource]\<rparr>)
      | None \<Rightarrow>
          (case execute_reply N (issued s @ [NewSource]) TnxSrc sql of
             Inl e \<Rightarrow> (Some e, s\<lparr>issued := issued s @ [NewSource, Execute TnxSrc sql]\<rparr>)
           | Inr _ \<Rightarrow> (None, s\<lparr>issued := issued s @ [NewSource, Execute TnxSrc sql]\<rparr>)))"

text \<open>
  \<^verbatim>\<open>except DatabaseError: raise\<close> then \<^verbatim>\<open>except Exception: raise _op_error(m)\<close>
\<close>

definition reraise_or_op_error :: "string \<Rightarrow> exc \<Rightarrow> exc" where
  "reraise_or_op_error m e = (if is_DatabaseError (cls e) then e else op_error m)"

definition closed_error :: exc where
  "closed_error = op_error ''connection has been closed''"

text \<open>
  \<^verbatim>\<open>Connection.__init__\<close> on a native connection with calls \<open>h\<close> behind it: the type cache
  takes a source (unguarded), then a second \<open>source()\<close> call probes the connection.
\<close>

definition connection_init :: "native \<Rightarrow> call list \<Rightarrow> exc + state" where
  "connection_init N h =
     (case source_reply N h of
        Some e \<Rightarrow> Inl e
      | None \<Rightarrow>
          (case source_reply N (h @ [NewSource]) of
             Some e \<Rightarrow> Inl (op_error ''invalid connection'')
           | None \<Rightarrow>
               Inr \<lparr>cnx = Some NativeCnx, tnx = False, type_cache = Map.empty,
                    issued = h @ [NewSource, NewSource]\<rparr>))"

definition commit :: "native \<Rightarrow> state \<Rightarrow> (exc + unit) \<times> state" where
  "commit N s =
     (case cnx s of
        None \<Rightarrow> (Inl closed_error, s)
      | Some _ \<Rightarrow>
          if tnx s then
            (case source_execute N ''COMMIT'' (s\<lparr>tnx := False\<rparr>) of
               (Some e, s') \<Rightarrow> (Inl (reraise_or_op_error (''can'' @ [apos] @ ''t commit'') e), s')
             | (None, s') \<Rightarrow> (Inr (), s'))
          else (Inr (), s))"

definition rollback :: "native \<Rightarrow> state \<Rightarrow> (exc + unit) \<times> state" where
  "rollback N s =
     (case cnx s of
        None \<Rightarrow> (Inl closed_error, s)
      | Some _ \<Rightarrow>
          if tnx s then
            (case source_execute N ''ROLLBACK'' (s\<lparr>tnx := False\<rparr>) of
               (Some e, s') \<Rightarrow> (Inl (reraise_or_op_error (''can'' @ [apos] @ ''t rollback'') e), s')
             | (None, s') \<Rightarrow> (Inr (), s'))
          else (Inr (), s))"

text \<open>\<^verbatim>\<open>self._cnx.close()\<close> then \<^verbatim>\<open>self._cnx = None\<close>; the native call is unguarded.\<close>

definition release :: "native \<Rightarrow> state \<Rightarrow> (exc + unit) \<times> state" where
  "release N s =
     (case close_reply N (issued s) of
        Some e \<Rightarrow> (Inl e, s\<lparr>issued := issued s @ [CloseCnx]\<rparr>)
      | None \<Rightarrow> (Inr (), s\<lparr>issued := issued s @ [CloseCnx], cnx := None\<rparr>))"

text \<open>
  \<^verbatim>\<open>Connection.close\<close>: the handler around the rollback passes over a \<open>DatabaseError\<close>
  only; any other exception of it would leave \<open>close\<close>.
\<close>

definition close :: "native \<Rightarrow> state \<Rightarrow> (exc + unit) \<times> state" where
  "close N s =
     (case cnx s of
        None \<Rightarrow> (Inl closed_error, s)
      | Some _ \<Rightarrow>
          if tnx s then
            (case rollback N s of
               (Inl e, s1) \<Rightarrow> if is_DatabaseError (cls e) then release N s1 else (Inl e, s1)
             | (Inr _, s1) \<Rightarrow> release N s1)
          else release N s)"

text \<open>
  \<^verbatim>\<open>Cursor.__init__\<close> for the default cursor type: the only step that can raise is the
  \<open>source()\<close> call.
\<close>

definition new_cursor :: "nat \<Rightarrow> cursor" where
  "new_cursor h =
     \<lparr>src = h, description = None, colnames = None, coltypes = None, rowcount = - 1,
      arraysize = 1, lastrowid = None, row_factory = None\<rparr>"

text \<open>\<^verbatim>\<open>Connection.cursor\<close>\<close>

definition cursor :: "native \<Rightarrow> state \<Rightarrow> (exc + cursor) \<times> state" where
  "cursor N s =
     (case cnx s of
        None \<Rightarrow> (Inl closed_error, s)
      | Some _ \<Rightarrow>
          (case source_reply N (issued s) of
             Some e \<Rightarrow> (Inl (op_error ''invalid connection''), s\<lparr>issued := issued s @ [NewSource]\<rparr>)
           | None \<Rightarrow>
               (Inr (new_cursor (count_list (issued s) NewSource)),
                s\<lparr>issued := issued s @ [NewSource]\<rparr>)))"

section \<open>Cursor\<close>

text \<open>
  The handlers around the statement loop of \<^verbatim>\<open>executemany\<close>, \<open>sql\<close> being the value of
  that variable when the exception was raised; \<open>str(err)\<close> is the message.
\<close>

definition wrap_exec_error :: "string \<Rightarrow> exc \<Rightarrow> exc" where
  "wrap_exec_error sql e =
     (if is_DatabaseError (cls e) then e
      else if is_Error (cls e) then
        db_error (''error in '' @ squote sql @ '': '' @ squote (msg e) @ '' '') DatabaseError
      else op_error (''internal error in '' @ squote sql @ '': '' @ msg e))"

text \<open>The implicit \<open>BEGIN\<close> at the head of \<^verbatim>\<open>executemany\<close>.\<close>

definition begin_transaction :: "native \<Rightarrow> state \<Rightarrow> exc option \<times> state" where
  "begin_transaction N s =
     (if \<not> tnx s then
        (case source_execute N ''BEGIN'' s of
           (Some e, s') \<Rightarrow>
             (Some (reraise_or_op_error (''can'' @ [apos] @ ''t start transaction'') e), s')
         | (None, s') \<Rightarrow> (None, s'\<lparr>tnx := True\<rparr>))
      else (None, s))"

text \<open>
  The \<open>for\<close> loop of \<^verbatim>\<open>executemany\<close>, with its variables \<open>sql\<close> and \<open>rowcount\<close>. An
  exception leaves the loop with the \<open>sql\<close> of that moment: when the quoting raises,
  \<open>sql\<close> still is the text of the statement before.
\<close>

fun run_statements ::
  "native \<Rightarrow> pyenv \<Rightarrow> string \<Rightarrow> pyval list \<Rightarrow> string \<Rightarrow> int \<Rightarrow> cursor \<Rightarrow> state
     \<Rightarrow> ((exc \<times> string) + int) \<times> cursor \<times> state" where
  "run_statements N E operation [] sql rc c s = (Inr rc, c, s)"
| "run_statements N E operation (p # ps) sql rc c s =
     (case (if truthy E p then quoteparams N E operation p else Inr operation) of
        Inl e \<Rightarrow> (Inl (e, sql), c, s)
      | Inr sql' \<Rightarrow>
          (case execute_reply N (issued s) (CursorSrc (src c)) sql' of
             Inl e \<Rightarrow> (Inl (e, sql'), c, s\<lparr>issued := issued s @ [Execute (CursorSrc (src c)) sql']\<rparr>)
           | Inr rows \<Rightarrow>
               if rows \<noteq> None \<and> rows \<noteq> Some 0 then
                 run_statements N E operation ps sql' (rc + the rows) c
                   (s\<lparr>issued := issued s @ [Execute (CursorSrc (src c)) sql']\<rparr>)
               else
                 run_statements N E operation ps sql' rc (c\<lparr>rowcount := - 1\<rparr>)
                   (s\<lparr>issued := issued s @ [Execute (CursorSrc (src c)) sql']\<rparr>)))"

text \<open>
  The list comprehension that builds the description: one \<open>getdescr\<close> per column, in
  order, the first exception ending it.
\<close>

fun describe ::
  "native \<Rightarrow> pyenv \<Rightarrow> (int \<times> string \<times> int) list \<Rightarrow> state \<Rightarrow> (exc + column list) \<times> state" where
  "describe N E [] s = (Inr [], s)"
| "describe N E (info # infos) s =
     (case getdescr N E (snd (snd info)) s of
        (Inl e, s') \<Rightarrow> (Inl e, s')
      | (Inr d, s') \<Rightarrow>
          (case describe N E infos s' of
             (Inl e, s'') \<Rightarrow> (Inl e, s'')
           | (Inr ds, s'') \<Rightarrow>
               (Inr (CursorDescription (fst (snd info)) (typname d) (typlen d) # ds), s'')))"

text \<open>The default \<^verbatim>\<open>build_row_factory\<close>: a named tuple when there are column names.\<close>

definition build_row_factory :: "string list \<Rightarrow> string list option" where
  "build_row_factory names = (if names \<noteq> [] then Some names else None)"

text \<open>
  The part of \<^verbatim>\<open>executemany\<close> after the loop; nothing in it is guarded, so an
  exception of \<open>listinfo\<close>, \<open>getdescr\<close> or \<open>oidstatus\<close> leaves as it is.
\<close>

definition finish :: "native \<Rightarrow> pyenv \<Rightarrow> int \<Rightarrow> cursor \<Rightarrow> state \<Rightarrow> (exc + ret) \<times> cursor \<times> state" where
  "finish N E rc c s =
     (if resulttype N (issued s) (CursorSrc (src c)) = RESULT_DQL then
        (case listinfo N (issued s) (CursorSrc (src c)) of
           Inl e \<Rightarrow> (Inl e, c\<lparr>rowcount := ntuples N (issued s) (CursorSrc (src c))\<rparr>, s)
         | Inr infos \<Rightarrow>
             (case describe N E infos s of
                (Inl e, s') \<Rightarrow> (Inl e, c\<lparr>rowcount := ntuples N (issued s) (CursorSrc (src c))\<rparr>, s')
              | (Inr d, s') \<Rightarrow>
                  (Inr RetSelf,
                   c\<lparr>rowcount := ntuples N (issued s) (CursorSrc (src c)),
                     colnames := Some (map name d),
                     coltypes := Some (map type_code d),
                     description := Some d,
                     lastrowid := None,
                     row_factory := build_row_factory (map name d)\<rparr>,
                   s')))
      else
        (case oidstatus N (issued s) (CursorSrc (src c)) of
           Inl e \<Rightarrow> (Inl e, c\<lparr>rowcount := rc\<rparr>, s)
         | Inr oid \<Rightarrow> (Inr RetSelf, c\<lparr>rowcount := rc, lastrowid := oid\<rparr>, s)))"

text \<open>\<^verbatim>\<open>Cursor.executemany\<close>\<close>

definition executemany ::
  "native \<Rightarrow> pyenv \<Rightarrow> string \<Rightarrow> pyval list \<Rightarrow> cursor \<Rightarrow> state \<Rightarrow> (exc + ret) \<times> cursor \<times> state" where
  "executemany N E operation seq_of_parameters c s =
     (if seq_of_parameters = [] then (Inr RetNone, c, s)
      else
        (case begin_transaction N s of
           (Some e, s1) \<Rightarrow>
             (Inl (wrap_exec_error ''BEGIN'' e),
              c\<lparr>description := None, colnames := None, coltypes := None, rowcount := - 1\<rparr>, s1)
         | (None, s1) \<Rightarrow>
             (case run_statements N E operation seq_of_parameters ''BEGIN'' 0
                     (c\<lparr>description := None, colnames := None, coltypes := None,
                        rowcount := - 1\<rparr>) s1 of
                (Inl (e, sql), c1, s2) \<Rightarrow> (Inl (wrap_exec_error sql e), c1, s2)
              | (Inr rc, c1, s2) \<Rightarrow> finish N E rc c1 s2)))"

text \<open>
  \<^verbatim>\<open>Cursor.execute\<close>: a non-empty list whose first element is a tuple is run as a
  batch, anything else as the single parameter set.
\<close>

definition execute ::
  "native \<Rightarrow> pyenv \<Rightarrow> string \<Rightarrow> pyval \<Rightarrow> cursor \<Rightarrow> state \<Rightarrow> (exc + ret) \<times> cursor \<times> state" where
  "execute N E operation parameters c s =
     (case parameters of
        VList (VTuple t # ps) \<Rightarrow> executemany N E operation (VTuple t # ps) c s
      | _ \<Rightarrow> executemany N E operation [parameters] c s)"

section \<open>Observing the native calls\<close>

text \<open>The calls that a step from \<open>s\<close> to \<open>s'\<close> added to the list of issued calls.\<close>

definition new_calls :: "state \<Rightarrow> state \<Rightarrow> call list" where
  "new_calls s s' = drop (length (issued s)) (issued s')"

text \<open>A call on the source of the type cache.\<close>

fun on_cache :: "call \<Rightarrow> bool" where
  "on_cache (Execute CacheSrc q) = True"
| "on_cache (Fetch CacheSrc n) = True"
| "on_cache _ = False"

text \<open>A statement run on the source of some cursor.\<close>

fun is_statement :: "call \<Rightarrow> bool" where
  "is_statement (Execute (CursorSrc k) q) = True"
| "is_statement x = False"

text \<open>The commands that a list of calls ran on transaction sources, in order.\<close>

fun tnx_commands :: "call list \<Rightarrow> string list" where
  "tnx_commands [] = []"
| "tnx_commands (Execute TnxSrc q # l) = q # tnx_commands l"
| "tnx_commands (x # l) = tnx_commands l"

text \<open>The statements run on cursor source \<open>k\<close> among the calls \<open>xs\<close>.\<close>

definition statements :: "nat \<Rightarrow> call list \<Rightarrow> call list" where
  "statements k xs = filter (\<lambda>x. case x of Execute sh q \<Rightarrow> sh = CursorSrc k | _ \<Rightarrow> False) xs"

text \<open>
  The numeric results that the native connection gave for the statements run on cursor
  source \<open>k\<close> among the calls \<open>xs\<close>, issued after the calls \<open>h\<close>: each statement's reply
  is read at the history it was issued at; a row-returning statement, whose
  \<open>execute\<close> gives \<open>None\<close>, reports no number.
\<close>

fun reported :: "native \<Rightarrow> nat \<Rightarrow> call list \<Rightarrow> call list \<Rightarrow> int list" where
  "reported N k h [] = []"
| "reported N k h (x # xs) =
     (case x of
        Execute sh q \<Rightarrow>
          if sh = CursorSrc k then
            (case execute_reply N h sh q of
               Inr (Some n) \<Rightarrow> [n]
             | _ \<Rightarrow> [])
          else []
      | _ \<Rightarrow> [])
     @ reported N k (h @ [x]) xs"

text \<open>The calls up to the last one that is not a catalog lookup of the type cache.\<close>

definition strip_lookups :: "call list \<Rightarrow> call list" where
  "strip_lookups l = rev (dropWhile on_cache (rev l))"

text \<open>The type oids of the columns that \<open>listinfo\<close> gave.\<close>

definition column_oids :: "(int \<times> string \<times> int) list \<Rightarrow> int set" where
  "column_oids infos = set (map (\<lambda>info. snd (snd info)) infos)"

text \<open>
  The step from \<open>s\<close> to \<open>s'\<close> keeps the cache entry \<open>d\<close> of type oid \<open>k\<close> and issues no
  catalog lookup for \<open>k\<close>.
\<close>

definition keeps :: "int \<Rightarrow> type_descr \<Rightarrow> state \<Rightarrow> state \<Rightarrow> bool" where
  "keeps k d s s' \<longleftrightarrow>
     type_cache s' k = Some d
     \<and> count_list (new_calls s s') (Execute CacheSrc (lookup_sql k)) = 0"

section \<open>The kinds of value the specification lists for quoting\<close>

text \<open>
  The value kinds that the specification names as supported: date and time values,
  text, the binary wrapper, integers (with \<open>bool\<close>), floats, \<open>None\<close>, lists and tuples,
  decimals, and objects with \<open>__pg_repr__\<close>.
\<close>

fun supported_kind :: "pyval \<Rightarrow> bool" where
  "supported_kind (VDict d) = False"
| "supported_kind (VOther t) = False"
| "supported_kind v = True"

text \<open>A value all of whose parts, down through lists and tuples, are of a supported kind.\<close>

fun renderable :: "pyval \<Rightarrow> bool" where
  "renderable (VDict d) = False"
| "renderable (VOther t) = False"
| "renderable (VList xs) = (\<forall>x \<in> set xs. renderable x)"
| "renderable (VTuple xs) = (\<forall>x \<in> set xs. renderable x)"
| "renderable v = True"

section \<open>Runtimes that know the float sentinels\<close>

definition is_value_error :: "exc + 'a \<Rightarrow> bool" where
  "is_value_error r = (case r of Inl e \<Rightarrow> cls e = ValueError | Inr x \<Rightarrow> False)"

text \<open>
  For each sentinel text, either the built-in \<open>float\<close> reads it as the IEEE value, or
  it raises \<open>ValueError\<close> and the name that \<^verbatim>\<open>_cast_float\<close> falls back on is bound to
  the IEEE value.
\<close>

definition sentinel_runtime :: "pyenv \<Rightarrow> bool" where
  "sentinel_runtime E \<longleftrightarrow>
     (py_float E ''NaN'' = Inr NaN
        \<or> is_value_error (py_float E ''NaN'') \<and> name_nan E = Some NaN)
   \<and> (py_float E ''Infinity'' = Inr PInf
        \<or> is_value_error (py_float E ''Infinity'') \<and> name_inf E = Some PInf)
   \<and> (py_float E ''-Infinity'' = Inr NInf
        \<or> is_value_error (py_float E ''-Infinity'') \<and> name_inf E = Some PInf)"

section \<open>Clients\<close>

text \<open>
  A client that makes one \<open>execute\<close> or \<open>executemany\<close> call after the other, each on a
  cursor of its choice, and carries on when a call raises.
\<close>

datatype request =
    RunExecute string pyval cursor
  | RunExecutemany string "pyval list" cursor

fun perform :: "native \<Rightarrow> pyenv \<Rightarrow> request \<Rightarrow> state \<Rightarrow> state" where
  "perform N E (RunExecute operation p c) s = snd (snd (execute N E operation p c s))"
| "perform N E (RunExecutemany operation ps c) s = snd (snd (executemany N E operation ps c s))"

fun perform_all :: "native \<Rightarrow> pyenv \<Rightarrow> request list \<Rightarrow> state \<Rightarrow> state" where
  "perform_all N E [] s = s"
| "perform_all N E (x # xs) s = perform_all N E xs (perform N E x s)"

section \<open>Sample native connections and states\<close>

text \<open>A native connection on which every call succeeds and every statement affects one row.\<close>

definition quiet_native :: native where
  "quiet_native =
     \<lparr>source_reply = (\<lambda>h. None),
      execute_reply = (\<lambda>h sh sql. Inr (Some 1)),
      fetch_reply = (\<lambda>h sh n. Inr []),
      close_reply = (\<lambda>h. None),
      resulttype = (\<lambda>h sh. RESULT_DML),
      ntuples = (\<lambda>h sh. 0),
      listinfo = (\<lambda>h sh. Inr []),
      oidstatus = (\<lambda>h sh. Inr None),
      escape_string = (\<lambda>t. t),
      escape_bytea = (\<lambda>t. t)\<rparr>"

text \<open>
  One on which \<open>COMMIT\<close> and \<open>ROLLBACK\<close> raise an exception from outside the taxonomy.
\<close>

definition broken_native :: native where
  "broken_native =
     quiet_native\<lparr>execute_reply :=
       (\<lambda>h sh sql.
          if sh = TnxSrc \<and> sql \<noteq> ''BEGIN'' then Inl (Exc OtherException ''connection lost'')
          else Inr (Some 1))\<rparr>"

text \<open>
  A native connection on which every statement after the first one of a cursor raises
  a \<open>ProgrammingError\<close>.
\<close>

definition failing_native :: native where
  "failing_native =
     quiet_native\<lparr>execute_reply :=
       (\<lambda>h sh sql.
          if sh \<noteq> TnxSrc \<and> list_ex is_statement h
          then Inl (Exc ProgrammingError ''syntax error'')
          else Inr (Some 1))\<rparr>"

text \<open>A native connection whose catalog answers every lookup with \<open>int4\<close> of length 4.\<close>

definition catalog_native :: native where
  "catalog_native =
     quiet_native\<lparr>fetch_reply := (\<lambda>h sh n. Inr [[Some ''int4'', Some ''4'']])\<rparr>"

text \<open>
  One whose first catalog query, issued before any other call, fails, and which
  answers like \<open>catalog_native\<close> from then on.
\<close>

definition flaky_catalog_native :: native where
  "flaky_catalog_native =
     catalog_native\<lparr>execute_reply :=
       (\<lambda>h sh sql.
          if sh = CacheSrc \<and> h = [] then Inl (Exc OperationalError ''server closed the connection'')
          else Inr (Some 1))\<rparr>"

text \<open>An open connection inside a transaction, and one outside.\<close>

definition open_state :: state where
  "open_state = \<lparr>cnx = Some NativeCnx, tnx = True, type_cache = Map.empty, issued = []\<rparr>"

definition idle_state :: state where
  "idle_state = \<lparr>cnx = Some NativeCnx, tnx = False, type_cache = Map.empty, issued = []\<rparr>"

section \<open>Sample runtimes\<close>

text \<open>The \<open>%\<close> operator restricted to \<open>%s\<close> fields, each taking the next argument.\<close>

fun fill :: "string \<Rightarrow> string list \<Rightarrow> string" where
  "fill [] args = []"
| "fill [x] args = [x]"
| "fill (x # y # t) args =
     (if x = CHR ''%'' \<and> y = CHR ''s'' \<and> args \<noteq> [] then hd args @ fill t (tl args)
      else x # fill (y # t) args)"

text \<open>
  A runtime in the manner of Python 2.6 and later: \<open>float\<close> reads the three sentinel
  texts itself, and the names \<open>nan\<close> and \<open>inf\<close> are unbound.
\<close>

definition sample_env :: pyenv where
  "sample_env =
     \<lparr>py_float = (\<lambda>t. if t = ''Infinity'' then Inr PInf
                     else if t = ''-Infinity'' then Inr NInf
                     else if t = ''NaN'' then Inr NaN
                     else if t = ''0.5'' then Inr (Finite False 1 (- 1))
                     else Inl (Exc ValueError (''could not convert string to float: '' @ t))),
      py_int = (\<lambda>t. if t = ''4'' then Inr 4
                   else if t = ''-1'' then Inr (- 1)
                   else Inl (Exc ValueError (''invalid literal for int(): '' @ t))),
      py_decimal = (\<lambda>t. Inr (VDecimal t)),
      py_str = (\<lambda>v. ''0.5''),
      fmt_tuple = (\<lambda>t vs. Inr (fill t (map (\<lambda>v. case v of VInt i \<Rightarrow> show_int i | VStr x \<Rightarrow> x | _ \<Rightarrow> ''0.5'') vs))),
      fmt_mapping = (\<lambda>t g. Inr t),
      truth_other = (\<lambda>v. True),
      iter_other = (\<lambda>v. None),
      py_type = (\<lambda>v. case v of VOther t \<Rightarrow> t | _ \<Rightarrow> ''dict''),
      unescape_bytea = (\<lambda>t. t),
      name_nan = None,
      name_inf = None\<rparr>"

section \<open>Frame lemmas\<close>

text \<open>
  What each operation leaves alone and which calls it adds: they are the facts the
  properties below rest on.
\<close>

lemma source_execute_cases:
  assumes "source_execute N sql s = (r, s')"
  shows "tnx s' = tnx s \<and> cnx s' = cnx s \<and> type_cache s' = type_cache s
     \<and> ((\<exists>e. source_reply N (issued s) = Some e \<and> r = Some e \<and> issued s' = issued s @ [NewSource])
        \<or> source_reply N (issued s) = None \<and> issued s' = issued s @ [NewSource, Execute TnxSrc sql])"
proof (cases "source_reply N (issued s)")
  case None
  with assms show ?thesis
    by (auto simp: source_execute_def split: sum.splits)
next
  case (Some e)
  with assms have "r = Some e" "s' = s\<lparr>issued := issued s @ [NewSource]\<rparr>"
    by (simp_all add: source_execute_def)
  with Some show ?thesis by simp
qed

lemma reraise_is_db: "is_DatabaseError (cls (reraise_or_op_error m e))"
  by (simp add: reraise_or_op_error_def op_error_def db_error_def)

lemma connection_init_fresh:
  "connection_init N h = Inr s \<Longrightarrow>
     cnx s = Some NativeCnx \<and> \<not> tnx s \<and> type_cache s = Map.empty
     \<and> issued s = h @ [NewSource, NewSource]"
  by (auto simp: connection_init_def split: option.splits)

lemma rollback_outcome:
  assumes "cnx s \<noteq> None" "tnx s" "rollback N s = (r, s')"
  shows "tnx s' = False" "cnx s' = cnx s" "type_cache s' = type_cache s"
    "issued s' = issued s @ [NewSource] \<or> issued s' = issued s @ [NewSource, Execute TnxSrc ''ROLLBACK'']"
    "r = Inl e \<Longrightarrow> is_DatabaseError (cls e)"
  using assms
  by (auto simp: rollback_def reraise_is_db split: option.splits prod.splits dest!: source_execute_cases)

lemma commit_outcome:
  assumes "cnx s \<noteq> None" "tnx s" "commit N s = (r, s')"
  shows "tnx s' = False" "cnx s' = cnx s" "type_cache s' = type_cache s"
    "issued s' = issued s @ [NewSource] \<or> issued s' = issued s @ [NewSource, Execute TnxSrc ''COMMIT'']"
    "r = Inl e \<Longrightarrow> is_DatabaseError (cls e)"
  using assms
  by (auto simp: commit_def reraise_is_db split: option.splits prod.splits dest!: source_execute_cases)

lemma getdescr_frame:
  "getdescr N E k s = (r, s') \<Longrightarrow>
     tnx s' = tnx s \<and> cnx s' = cnx s \<and> (\<exists>t. issued s' = issued s @ t \<and> list_all on_cache t)"
  by (auto simp: getdescr_def split: option.splits sum.splits)

lemma describe_frame:
  "describe N E infos s = (r, s') \<Longrightarrow>
     tnx s' = tnx s \<and> cnx s' = cnx s \<and> (\<exists>t. issued s' = issued s @ t \<and> list_all on_cache t)"
proof (induction infos arbitrary: s r s')
  case Nil
  then show ?case by simp
next
  case (Cons info infos)
  obtain r1 s1 where g: "getdescr N E (snd (snd info)) s = (r1, s1)" by (cases "getdescr N E (snd (snd info)) s")
  from getdescr_frame[OF g] obtain t1 where
    f1: "tnx s1 = tnx s" "cnx s1 = cnx s" "issued s1 = issued s @ t1" "list_all on_cache t1" by blast
  show ?case
  proof (cases r1)
    case (Inl e)
    with Cons.prems g f1 show ?thesis by auto
  next
    case (Inr d)
    obtain r2 s2 where d2: "describe N E infos s1 = (r2, s2)" by (cases "describe N E infos s1")
    from Cons.IH[OF d2] obtain t2 where
      f2: "tnx s2 = tnx s1" "cnx s2 = cnx s1" "issued s2 = issued s1 @ t2" "list_all on_cache t2" by blast
    from Cons.prems g Inr d2 have "s' = s2" by (auto split: sum.splits)
    with f1 f2 show ?thesis by auto
  qed
qed

lemma finish_frame:
  "finish N E rc c s = (r, c', s') \<Longrightarrow>
     tnx s' = tnx s \<and> cnx s' = cnx s \<and> src c' = src c
     \<and> (\<exists>t. issued s' = issued s @ t \<and> list_all on_cache t)"
  by (auto simp: finish_def split: if_splits sum.splits prod.splits dest!: describe_frame)

lemma run_statements_frame:
  "run_statements N E operation ps sql rc c s = (r, c', s') \<Longrightarrow>
     tnx s' = tnx s \<and> cnx s' = cnx s \<and> type_cache s' = type_cache s \<and> src c' = src c
     \<and> (\<exists>qs. issued s' = issued s @ map (Execute (CursorSrc (src c))) qs
           \<and> length qs \<le> length ps \<and> (\<forall>x. r = Inr x \<longrightarrow> length qs = length ps))"
proof (induction ps arbitrary: sql rc c s)
  case Nil
  then show ?case by auto
next
  case (Cons p ps)
  show ?case
  proof (cases "if truthy E p then quoteparams N E operation p else Inr operation")
    case (Inl e)
    with Cons.prems show ?thesis by (auto intro: exI[of _ "[]"])
  next
    case (Inr q)
    let ?s1 = "s\<lparr>issued := issued s @ [Execute (CursorSrc (src c)) q]\<rparr>"
    show ?thesis
    proof (cases "execute_reply N (issued s) (CursorSrc (src c)) q")
      case (Inl e)
      with Cons.prems Inr show ?thesis by (auto intro: exI[of _ "[q]"])
    next
      case rows: (Inr rows)
      obtain c1 rc1 where step: "run_statements N E operation ps q rc1 c1 ?s1 = (r, c', s')"
        and c1: "src c1 = src c"
        using Cons.prems Inr rows by (auto split: if_splits)
      from Cons.IH[OF step] c1 obtain qs where
        "tnx s' = tnx s" "cnx s' = cnx s" "type_cache s' = type_cache s" "src c' = src c"
        "issued s' = issued s @ map (Execute (CursorSrc (src c))) (q # qs)"
        "length qs \<le> length ps" "\<forall>x. r = Inr x \<longrightarrow> length qs = length ps"
        by auto
      then show ?thesis by (intro conjI exI[of _ "q # qs"]) auto
    qed
  qed
qed

section \<open>The calls of \<open>executemany\<close>\<close>

lemma tnx_commands_append: "tnx_commands (a @ b) = tnx_commands a @ tnx_commands b"
  by (induction a rule: tnx_commands.induct) auto

lemma tnx_commands_cursor: "tnx_commands (map (Execute (CursorSrc k)) qs) = []"
  by (induction qs) auto

lemma tnx_commands_cache: "list_all on_cache l \<Longrightarrow> tnx_commands l = []"
  by (induction l rule: tnx_commands.induct) auto

lemma begin_transaction_cases:
  assumes "begin_transaction N s = (r, s')"
  shows "cnx s' = cnx s \<and> type_cache s' = type_cache s \<and>
    (tnx s \<and> r = None \<and> s' = s
     \<or> \<not> tnx s \<and> r = None \<and> tnx s' \<and> source_reply N (issued s) = None
         \<and> issued s' = issued s @ [NewSource, Execute TnxSrc ''BEGIN'']
     \<or> \<not> tnx s \<and> (\<exists>e. r = Some e \<and> is_DatabaseError (cls e)) \<and> \<not> tnx s'
         \<and> source_reply N (issued s) = None
         \<and> issued s' = issued s @ [NewSource, Execute TnxSrc ''BEGIN'']
     \<or> \<not> tnx s \<and> (\<exists>e. r = Some e \<and> is_DatabaseError (cls e)) \<and> \<not> tnx s'
         \<and> source_reply N (issued s) \<noteq> None
         \<and> issued s' = issued s @ [NewSource])"
proof (cases "tnx s")
  case True
  with assms show ?thesis by (simp add: begin_transaction_def)
next
  case False
  obtain r1 s1 where se: "source_execute N ''BEGIN'' s = (r1, s1)"
    by (cases "source_execute N ''BEGIN'' s")
  note c = source_execute_cases[OF se]
  show ?thesis
  proof (cases r1)
    case None
    with assms False se have "r = None" "s' = s1\<lparr>tnx := True\<rparr>"
      by (simp_all add: begin_transaction_def)
    with c None False show ?thesis by auto
  next
    case (Some e)
    with assms False se have "r = Some (reraise_or_op_error (''can'' @ [apos] @ ''t start transaction'') e)" "s' = s1"
      by (simp_all add: begin_transaction_def)
    with c Some False reraise_is_db show ?thesis by auto
  qed
qed

lemma executemany_calls:
  assumes "executemany N E operation ps c s = (r, c', s')" and "ps \<noteq> []"
  shows "\<exists>pre qs post.
     issued s' = issued s @ pre @ map (Execute (CursorSrc (src c))) qs @ post
     \<and> list_all on_cache post \<and> length qs \<le> length ps
     \<and> cnx s' = cnx s \<and> src c' = src c
     \<and> (tnx s \<longrightarrow> pre = [] \<and> tnx s')
     \<and> (\<not> tnx s \<longrightarrow>
          pre = [NewSource, Execute TnxSrc ''BEGIN''] \<and> source_reply N (issued s) = None
            \<and> (tnx s' \<or> qs = [] \<and> post = [] \<and> (\<exists>e. r = Inl e))
          \<or> pre = [NewSource] \<and> source_reply N (issued s) \<noteq> None
            \<and> qs = [] \<and> post = [] \<and> \<not> tnx s' \<and> (\<exists>e. r = Inl e))"
proof -
  let ?c0 = "c\<lparr>description := None, colnames := None, coltypes := None, rowcount := - 1\<rparr>"
  obtain rb s1 where bt: "begin_transaction N s = (rb, s1)"
    by (cases "begin_transaction N s")
  note b = begin_transaction_cases[OF bt]
  show ?thesis
  proof (cases rb)
    case (Some e)
    with assms bt have "s' = s1" "\<exists>e. r = Inl e" "src c' = src c"
      by (auto simp: executemany_def)
    with b Some show ?thesis
      by (intro exI[of _ "if source_reply N (issued s) = None then [NewSource, Execute TnxSrc ''BEGIN''] else [NewSource]"] exI[of _ "[]"]) auto
  next
    case None
    obtain rl c1 s2 where rs: "run_statements N E operation ps ''BEGIN'' 0 ?c0 s1 = (rl, c1, s2)"
      by (cases "run_statements N E operation ps ''BEGIN'' 0 ?c0 s1") auto
    from run_statements_frame[OF rs] obtain qs where
      l: "tnx s2 = tnx s1" "cnx s2 = cnx s1" "src c1 = src c"
         "issued s2 = issued s1 @ map (Execute (CursorSrc (src c))) qs" "length qs \<le> length ps"
      by auto
    from b None have t1: "tnx s1" by auto
    from b None have i1: "issued s1 = issued s @ (if tnx s then [] else [NewSource, Execute TnxSrc ''BEGIN''])"
      by auto
    from b None have sr: "\<not> tnx s \<Longrightarrow> source_reply N (issued s) = None" by auto
    show ?thesis
    proof (cases rl)
      case (Inl es)
      with assms bt None rs have "s' = s2" "c' = c1"
        by (auto simp: executemany_def split: prod.splits)
      with l t1 i1 sr b show ?thesis
        by (intro exI[of _ "if tnx s then [] else [NewSource, Execute TnxSrc ''BEGIN'']"] exI[of _ qs] exI[of _ "[]"]) auto
    next
      case (Inr rc)
      with assms bt None rs have fin: "finish N E rc c1 s2 = (r, c', s')"
        by (auto simp: executemany_def)
      from finish_frame[OF fin] obtain post where
        f: "tnx s' = tnx s2" "cnx s' = cnx s2" "src c' = src c1" "issued s' = issued s2 @ post"
           "list_all on_cache post" by auto
      with l t1 i1 sr b show ?thesis
        by (intro exI[of _ "if tnx s then [] else [NewSource, Execute TnxSrc ''BEGIN'']"] exI[of _ qs] exI[of _ post]) auto
    qed
  qed
qed

lemma execute_unfold:
  "\<exists>ps. ps \<noteq> [] \<and> execute N E operation p c s = executemany N E operation ps c s"
  by (auto simp: execute_def split: pyval.splits list.splits)

lemma new_calls_append: "issued s' = issued s @ l \<Longrightarrow> new_calls s s' = l"
  by (simp add: new_calls_def)

lemma executemany_begin:
  assumes "executemany N E operation ps c s = (r, c', s')"
  shows "issued s' = issued s @ new_calls s s'
    \<and> (tnx s \<longrightarrow> tnx s' \<and> tnx_commands (new_calls s s') = [])
    \<and> (\<not> tnx s \<and> (\<exists>q. Execute (CursorSrc (src c)) q \<in> set (new_calls s s')) \<longrightarrow>
         tnx s' \<and> tnx_commands (new_calls s s') = [''BEGIN'']
         \<and> (\<exists>rest. new_calls s s' = NewSource # Execute TnxSrc ''BEGIN'' # rest))"
proof (cases "ps = []")
  case True
  with assms have "s' = s" by (simp add: executemany_def)
  then show ?thesis by (simp add: new_calls_def)
next
  case False
  from executemany_calls[OF assms False] obtain pre qs post where
    i: "issued s' = issued s @ pre @ map (Execute (CursorSrc (src c))) qs @ post"
    and p: "list_all on_cache post"
    and t: "tnx s \<longrightarrow> pre = [] \<and> tnx s'"
    and n: "\<not> tnx s \<longrightarrow>
          pre = [NewSource, Execute TnxSrc ''BEGIN''] \<and> source_reply N (issued s) = None
            \<and> (tnx s' \<or> qs = [] \<and> post = [] \<and> (\<exists>e. r = Inl e))
          \<or> pre = [NewSource] \<and> source_reply N (issued s) \<noteq> None
            \<and> qs = [] \<and> post = [] \<and> \<not> tnx s' \<and> (\<exists>e. r = Inl e)"
    by blast
  have nc: "new_calls s s' = pre @ map (Execute (CursorSrc (src c))) qs @ post"
    using i by (rule new_calls_append)
  have tc: "tnx_commands (new_calls s s') = tnx_commands pre"
    by (simp add: nc tnx_commands_append tnx_commands_cursor tnx_commands_cache[OF p])
  have nocur: "\<And>q. Execute (CursorSrc (src c)) q \<notin> set post"
    using p by (auto simp: list_all_iff)
  show ?thesis
  proof (intro conjI impI)
    show "issued s' = issued s @ new_calls s s'" using i nc by simp
  next
    assume "tnx s" with t tc show "tnx s'" by simp
  next
    assume "tnx s" with t tc show "tnx_commands (new_calls s s') = []" by simp
  next
    assume a: "\<not> tnx s \<and> (\<exists>q. Execute (CursorSrc (src c)) q \<in> set (new_calls s s'))"
    then have "qs \<noteq> []" using n nc nocur by auto
    with a n have pre: "pre = [NewSource, Execute TnxSrc ''BEGIN'']" and ts: "tnx s'" by auto
    show "tnx s'" by (rule ts)
    show "tnx_commands (new_calls s s') = [''BEGIN'']" using tc pre by simp
    show "\<exists>rest. new_calls s s' = NewSource # Execute TnxSrc ''BEGIN'' # rest"
      using nc pre by simp
  qed
qed

lemma perform_in_transaction:
  assumes "tnx s"
  shows "tnx (perform N E x s)
     \<and> issued (perform N E x s) = issued s @ new_calls s (perform N E x s)
     \<and> tnx_commands (new_calls s (perform N E x s)) = []"
proof -
  obtain operation ps c where
    "perform N E x s = snd (snd (executemany N E operation ps c s))"
    using execute_unfold by (cases x) (auto, metis)
  moreover obtain r c' s1 where "executemany N E operation ps c s = (r, c', s1)"
    by (cases "executemany N E operation ps c s") auto
  ultimately show ?thesis using executemany_begin[of N E operation ps c s r c' s1] assms
    by simp
qed

lemma perform_all_in_transaction:
  "tnx s \<Longrightarrow> tnx (perform_all N E calls s)
     \<and> issued (perform_all N E calls s) = issued s @ new_calls s (perform_all N E calls s)
     \<and> tnx_commands (new_calls s (perform_all N E calls s)) = []"
proof (induction calls arbitrary: s)
  case Nil
  then show ?case by (simp add: new_calls_def)
next
  case (Cons x xs)
  let ?s1 = "perform N E x s"
  let ?s2 = "perform_all N E xs ?s1"
  from perform_in_transaction[OF Cons.prems]
  have 1: "tnx ?s1" "issued ?s1 = issued s @ new_calls s ?s1" "tnx_commands (new_calls s ?s1) = []"
    by auto
  from Cons.IH[OF 1(1)]
  have 2: "tnx ?s2" "issued ?s2 = issued ?s1 @ new_calls ?s1 ?s2"
    "tnx_commands (new_calls ?s1 ?s2) = []"
    by auto
  have "issued ?s2 = issued s @ (new_calls s ?s1 @ new_calls ?s1 ?s2)"
    using 1(2) 2(2) by simp
  then have nc: "new_calls s ?s2 = new_calls s ?s1 @ new_calls ?s1 ?s2"
    by (rule new_calls_append)
  show ?case
    using 2(1) 1(2) 2(2) 1(3) 2(3) nc by (simp add: tnx_commands_append)
qed

lemma show_int_digit: "show_int 1 = ''1''" "show_int 2 = ''2''" "show_int 3 = ''3''"
  by (simp_all add: show_int_def)

lemma show_int_23: "show_int 23 = ''23''"
  by (simp add: show_int_def)

lemma idle_next:
  assumes "cnx s \<noteq> None" and "\<not> tnx s"
  shows "commit N s = (Inr (), s)" "rollback N s = (Inr (), s)"
    "ps \<noteq> [] \<and> source_reply N (issued s) = None \<longrightarrow>
       (\<exists>rest. new_calls s (snd (snd (executemany N E operation ps c s)))
          = NewSource # Execute TnxSrc ''BEGIN'' # rest)"
proof -
  show "commit N s = (Inr (), s)" "rollback N s = (Inr (), s)"
    using assms by (auto simp: commit_def rollback_def)
  show "ps \<noteq> [] \<and> source_reply N (issued s) = None \<longrightarrow>
       (\<exists>rest. new_calls s (snd (snd (executemany N E operation ps c s)))
          = NewSource # Execute TnxSrc ''BEGIN'' # rest)"
  proof
    assume a: "ps \<noteq> [] \<and> source_reply N (issued s) = None"
    obtain r c' s' where e: "executemany N E operation ps c s = (r, c', s')"
      by (cases "executemany N E operation ps c s") auto
    from executemany_calls[OF e] a assms(2) obtain qs post where
      "issued s' = issued s @ [NewSource, Execute TnxSrc ''BEGIN''] @ map (Execute (CursorSrc (src c))) qs @ post"
      by auto
    then have "new_calls s s' = [NewSource, Execute TnxSrc ''BEGIN''] @ map (Execute (CursorSrc (src c))) qs @ post"
      by (rule new_calls_append)
    with e show "\<exists>rest. new_calls s (snd (snd (executemany N E operation ps c s)))
          = NewSource # Execute TnxSrc ''BEGIN'' # rest" by simp
  qed
qed

section \<open>Outcomes of quoting\<close>

lemma quote_errors:
  "(quote N E v = Inl e \<longrightarrow> cls e = InterfaceError)"
  "(quote_each N E vs = Inl e \<longrightarrow> cls e = InterfaceError)"
  by (induction N E v and N E vs rule: quote_quote_each.induct)
    (auto split: sum.splits if_splits)

lemma quote_renders:
  "(\<exists>q. quote N E v = Inr q) = renderable v"
  "(\<exists>qs. quote_each N E vs = Inr qs) = (\<forall>x \<in> set vs. renderable x)"
  by (induction N E v and N E vs rule: quote_quote_each.induct)
    (auto split: sum.splits if_splits)

section \<open>Row counts\<close>

lemma reported_append:
  "reported N k h (xs @ ys) = reported N k h xs @ reported N k (h @ xs) ys"
  by (induction xs arbitrary: h) auto

lemma strip_lookups_stmt:
  "list_all on_cache post \<Longrightarrow>
     strip_lookups (a @ [Execute (CursorSrc k) q] @ post) = a @ [Execute (CursorSrc k) q]"
  by (simp add: strip_lookups_def dropWhile_append3 list_all_iff dropWhile_append1)

lemma run_statements_rowcount:
  "run_statements N E operation ps sql rc c s = (Inr rc', c', s') \<Longrightarrow>
     rc' = rc + sum_list (reported N (src c) (issued s) (new_calls s s'))"
proof (induction ps arbitrary: sql rc c s)
  case Nil
  then show ?case by (simp add: new_calls_def)
next
  case (Cons p ps)
  from Cons.prems obtain q where
    q: "(if truthy E p then quoteparams N E operation p else Inr operation) = Inr q"
    by (cases "if truthy E p then quoteparams N E operation p else Inr operation") auto
  let ?x = "Execute (CursorSrc (src c)) q"
  let ?s1 = "s\<lparr>issued := issued s @ [?x]\<rparr>"
  from Cons.prems q obtain rows where
    rows: "execute_reply N (issued s) (CursorSrc (src c)) q = Inr rows"
    by (cases "execute_reply N (issued s) (CursorSrc (src c)) q") auto
  define rc1 where "rc1 = (if rows \<noteq> None \<and> rows \<noteq> Some 0 then rc + the rows else rc)"
  define c1 where "c1 = (if rows \<noteq> None \<and> rows \<noteq> Some 0 then c else c\<lparr>rowcount := - 1\<rparr>)"
  have step: "run_statements N E operation ps q rc1 c1 ?s1 = (Inr rc', c', s')"
    using Cons.prems q rows by (cases rows) (simp_all add: rc1_def c1_def split: if_splits)
  have c1: "src c1 = src c" by (simp add: c1_def)
  from run_statements_frame[OF step] obtain qs where
    "issued s' = issued ?s1 @ map (Execute (CursorSrc (src c1))) qs" by blast
  then have i: "issued s' = issued s @ ?x # map (Execute (CursorSrc (src c))) qs"
    by (simp add: c1)
  have n1: "new_calls ?s1 s' = map (Execute (CursorSrc (src c))) qs"
    using i by (simp add: new_calls_def)
  have n0: "new_calls s s' = ?x # new_calls ?s1 s'"
    using i n1 by (simp add: new_calls_def)
  from Cons.IH[OF step]
  have "rc' = rc1 + sum_list (reported N (src c) (issued s @ [?x]) (new_calls ?s1 s'))"
    by (simp add: c1)
  moreover have "rc1 = rc + sum_list (case rows of Some n \<Rightarrow> [n] | None \<Rightarrow> [])"
    by (cases rows) (auto simp: rc1_def)
  ultimately show ?case
    unfolding n0 using rows by (cases rows) simp_all
qed

lemma reported_all_one:
  "\<forall>h q. execute_reply N h (CursorSrc k) q = Inr (Some 1) \<Longrightarrow>
     reported N k h (map (Execute (CursorSrc k)) qs) = replicate (length qs) 1"
  by (induction qs arbitrary: h) auto


lemma statements_cursor:
  "statements k (map (Execute (CursorSrc k)) qs) = map (Execute (CursorSrc k)) qs"
  by (induction qs) (auto simp: statements_def)

section \<open>Distinct oids have distinct lookup statements\<close>

lemma digits_distinct: "distinct ''0123456789''"
  by simp

lemma digit_inj:
  assumes "a < 10" "b < 10" "''0123456789'' ! a = ''0123456789'' ! b"
  shows "a = b"
  using assms digits_distinct by (simp add: nth_eq_iff_index_eq)

lemma show_nat_digits: "set (show_nat n) \<subseteq> set ''0123456789''"
proof (induction n rule: show_nat.induct)
  case (1 n)
  have d: "\<And>i. i < 10 \<Longrightarrow> ''0123456789'' ! i \<in> set ''0123456789''"
    by (rule nth_mem) simp
  show ?case
  proof (cases "n < 10")
    case True
    then have "show_nat n = [''0123456789'' ! n]" by simp
    with d[OF True] show ?thesis by simp
  next
    case False
    then have e: "show_nat n = show_nat (n div 10) @ [''0123456789'' ! (n mod 10)]" by simp
    have "n mod 10 < 10" by simp
    from d[OF this] "1.IH"[OF False] show ?thesis unfolding e by simp
  qed
qed

lemma show_nat_nonempty: "show_nat n \<noteq> []"
  by (subst show_nat.simps) simp

lemma show_nat_inj: "show_nat m = show_nat n \<Longrightarrow> m = n"
proof (induction m arbitrary: n rule: show_nat.induct)
  case (1 m)
  show ?case
  proof (cases "m < 10")
    case True
    then have m: "show_nat m = [''0123456789'' ! m]" by simp
    have "n < 10"
    proof (rule ccontr)
      assume "\<not> n < 10"
      then have "show_nat n = show_nat (n div 10) @ [''0123456789'' ! (n mod 10)]" by simp
      with "1.prems" m show_nat_nonempty[of "n div 10"] show False by simp
    qed
    then have "show_nat n = [''0123456789'' ! n]" by simp
    with "1.prems" m have "''0123456789'' ! m = ''0123456789'' ! n" by simp
    from digit_inj[OF True \<open>n < 10\<close> this] show ?thesis .
  next
    case False
    then have m: "show_nat m = show_nat (m div 10) @ [''0123456789'' ! (m mod 10)]" by simp
    have "\<not> n < 10"
    proof
      assume "n < 10"
      then have "show_nat n = [''0123456789'' ! n]" by simp
      with "1.prems" m show_nat_nonempty[of "m div 10"] show False by simp
    qed
    then have n: "show_nat n = show_nat (n div 10) @ [''0123456789'' ! (n mod 10)]" by simp
    from "1.prems" m n have a: "show_nat (m div 10) = show_nat (n div 10)"
      and b: "''0123456789'' ! (m mod 10) = ''0123456789'' ! (n mod 10)" by simp_all
    from "1.IH"[OF False a] have q: "m div 10 = n div 10" .
    have "m mod 10 = n mod 10" by (rule digit_inj[OF _ _ b]) simp_all
    with q show ?thesis by (metis div_mult_mod_eq)
  qed
qed

lemma show_int_inj: "show_int i = show_int j \<Longrightarrow> i = j"
proof -
  assume e: "show_int i = show_int j"
  have nm: "\<And>a b. CHR ''-'' # show_nat a \<noteq> show_nat b"
  proof
    fix a b assume "CHR ''-'' # show_nat a = show_nat b"
    then have "CHR ''-'' \<in> set (show_nat b)" by (metis list.set_intros(1))
    with show_nat_digits[of b] show False by auto
  qed
  show ?thesis
  proof (cases "i < 0")
    case True
    show ?thesis
    proof (cases "j < 0")
      case jn: True
      with True e have "show_nat (nat (- i)) = show_nat (nat (- j))" by (simp add: show_int_def)
      from show_nat_inj[OF this] True jn show ?thesis by simp
    next
      case False
      with True e nm show ?thesis by (simp add: show_int_def)
    qed
  next
    case False
    show ?thesis
    proof (cases "j < 0")
      case True
      with False e nm[of "nat (- j)" "nat i"] show ?thesis by (simp add: show_int_def)
    next
      case jp: False
      with False e have "show_nat (nat i) = show_nat (nat j)" by (simp add: show_int_def)
      from show_nat_inj[OF this] False jp show ?thesis by simp
    qed
  qed
qed

lemma lookup_sql_inj: "lookup_sql j = lookup_sql k \<longleftrightarrow> j = k"
  by (auto simp: lookup_sql_def dest: show_int_inj)


section \<open>Catalog lookups\<close>

lemma new_calls_trans:
  "issued s1 = issued s @ a \<Longrightarrow> issued s2 = issued s1 @ b \<Longrightarrow> new_calls s s2 = a @ b"
  by (simp add: new_calls_def)

lemma count_cursor_calls:
  "count_list (map (Execute (CursorSrc i)) qs) (Execute CacheSrc q) = 0"
  by (induction qs) auto

lemma getdescr_hit: "type_cache s k = Some d \<Longrightarrow> getdescr N E k s = (Inr d, s)"
  by (simp add: getdescr_def)

lemma getdescr_failure:
  "getdescr N E j s = (Inl e, s') \<Longrightarrow> type_cache s' = type_cache s"
  by (auto simp: getdescr_def split: option.splits sum.splits)

lemma getdescr_count:
  assumes "getdescr N E j s = (r, s')"
  shows "issued s' = issued s @ new_calls s s'"
    and "count_list (new_calls s s') (Execute CacheSrc (lookup_sql k))
          = (if j = k \<and> type_cache s k = None then 1 else 0)"
    and "type_cache s i = Some d \<Longrightarrow> type_cache s' i = Some d"
    and "i \<noteq> j \<Longrightarrow> type_cache s' i = type_cache s i"
    and "r = Inr d' \<Longrightarrow> type_cache s' j = Some d'"
    and "type_cache s j = None \<Longrightarrow> r = Inr d' \<Longrightarrow>
           new_calls s s' = [Execute CacheSrc (lookup_sql j), Fetch CacheSrc 1]
           \<and> type_cache s' = (type_cache s)(j \<mapsto> d')"
proof -
  show "issued s' = issued s @ new_calls s s'"
    using assms by (auto simp: getdescr_def new_calls_def split: option.splits sum.splits)
  show "count_list (new_calls s s') (Execute CacheSrc (lookup_sql k))
          = (if j = k \<and> type_cache s k = None then 1 else 0)"
    using assms
    by (auto simp: getdescr_def new_calls_def lookup_sql_inj split: option.splits sum.splits)
  show "type_cache s i = Some d \<Longrightarrow> type_cache s' i = Some d"
    using assms by (auto simp: getdescr_def split: option.splits sum.splits)
  show "i \<noteq> j \<Longrightarrow> type_cache s' i = type_cache s i"
    using assms by (auto simp: getdescr_def split: option.splits sum.splits)
  show "r = Inr d' \<Longrightarrow> type_cache s' j = Some d'"
    using assms by (auto simp: getdescr_def split: option.splits sum.splits)
  show "type_cache s j = None \<Longrightarrow> r = Inr d' \<Longrightarrow>
           new_calls s s' = [Execute CacheSrc (lookup_sql j), Fetch CacheSrc 1]
           \<and> type_cache s' = (type_cache s)(j \<mapsto> d')"
    using assms by (auto simp: getdescr_def new_calls_def split: option.splits sum.splits)
qed

lemma describe_count:
  assumes "describe N E infos s = (r, s')"
  shows "issued s' = issued s @ new_calls s s'
    \<and> count_list (new_calls s s') (Execute CacheSrc (lookup_sql k))
         \<le> (if type_cache s k = None then 1 else 0)
    \<and> (\<forall>ds. r = Inr ds \<longrightarrow>
          count_list (new_calls s s') (Execute CacheSrc (lookup_sql k))
            = (if k \<in> column_oids infos \<and> type_cache s k = None then 1 else 0))
    \<and> (\<forall>i d. type_cache s i = Some d \<longrightarrow> type_cache s' i = Some d)"
  using assms
proof (induction infos arbitrary: s r s')
  case Nil
  then show ?case by (simp add: new_calls_def column_oids_def)
next
  case (Cons info infos)
  let ?j = "snd (snd info)"
  let ?L = "Execute CacheSrc (lookup_sql k)"
  obtain r1 s1 where g: "getdescr N E ?j s = (r1, s1)" by (cases "getdescr N E ?j s")
  note gc = getdescr_count[OF g]
  show ?case
  proof (cases r1)
    case (Inl e)
    with Cons.prems g have "s' = s1" "r = Inl e" by auto
    with gc(1) gc(2)[of k] gc(3) show ?thesis by auto
  next
    case (Inr d)
    obtain r2 s2 where d2: "describe N E infos s1 = (r2, s2)" by (cases "describe N E infos s1")
    from Cons.prems g Inr d2 have s': "s' = s2" and r: "\<forall>ds. r = Inr ds \<longrightarrow> (\<exists>ds'. r2 = Inr ds')"
      by (auto split: sum.splits)
    from Cons.IH[OF d2] have
      i2: "issued s2 = issued s1 @ new_calls s1 s2"
      and le2: "count_list (new_calls s1 s2) ?L \<le> (if type_cache s1 k = None then 1 else 0)"
      and eq2: "\<forall>ds. r2 = Inr ds \<longrightarrow> count_list (new_calls s1 s2) ?L
                  = (if k \<in> column_oids infos \<and> type_cache s1 k = None then 1 else 0)"
      and keep2: "\<forall>i d. type_cache s1 i = Some d \<longrightarrow> type_cache s2 i = Some d"
      by blast+
    have nc: "new_calls s s2 = new_calls s s1 @ new_calls s1 s2"
      using gc(1) i2 by (rule new_calls_trans)
    have cj: "type_cache s1 ?j = Some d" using gc(5)[OF Inr] .
    have co: "column_oids (info # infos) = insert ?j (column_oids infos)"
      by (simp add: column_oids_def)
    have 1: "issued s2 = issued s @ new_calls s s2"
      using gc(1) i2 nc by simp
    have 4: "\<forall>i d. type_cache s i = Some d \<longrightarrow> type_cache s2 i = Some d"
      using gc(3) keep2 by blast
    show ?thesis
    proof (cases "?j = k")
      case True
      then have "type_cache s1 k \<noteq> None" using cj by auto
      with le2 have z: "count_list (new_calls s1 s2) ?L = 0" by simp
      have c1: "count_list (new_calls s s1) ?L = (if type_cache s k = None then 1 else 0)"
        using gc(2)[of k] True by simp
      from 1 4 z c1 True show ?thesis unfolding s' nc co by simp
    next
      case False
      then have c1: "count_list (new_calls s s1) ?L = 0" using gc(2)[of k] by simp
      have same: "type_cache s1 k = type_cache s k" using gc(4)[of k] False by simp
      from 1 4 c1 le2 eq2 r False show ?thesis unfolding s' nc co same by auto
    qed
  qed
qed

lemma finish_count:
  assumes "finish N E rc c s = (r, c', s')"
  shows "issued s' = issued s @ new_calls s s'
    \<and> count_list (new_calls s s') (Execute CacheSrc (lookup_sql k))
         \<le> (if type_cache s k = None then 1 else 0)
    \<and> (\<forall>i d. type_cache s i = Some d \<longrightarrow> type_cache s' i = Some d)"
proof (cases "resulttype N (issued s) (CursorSrc (src c)) = RESULT_DQL")
  case False
  with assms have "s' = s" by (auto simp: finish_def split: sum.splits)
  then show ?thesis by (simp add: new_calls_def)
next
  case True
  show ?thesis
  proof (cases "listinfo N (issued s) (CursorSrc (src c))")
    case (Inl e)
    with True assms have "s' = s" by (simp add: finish_def)
    then show ?thesis by (simp add: new_calls_def)
  next
    case (Inr infos)
    obtain r1 s1 where d: "describe N E infos s = (r1, s1)" by (cases "describe N E infos s")
    with True Inr assms have "s' = s1" by (auto simp: finish_def split: sum.splits)
    with describe_count[OF d, of k] show ?thesis by blast
  qed
qed

lemma executemany_count:
  assumes "executemany N E operation ps c s = (r, c', s')"
  shows "count_list (new_calls s s') (Execute CacheSrc (lookup_sql k))
         \<le> (if type_cache s k = None then 1 else 0)
    \<and> (\<forall>i d. type_cache s i = Some d \<longrightarrow> type_cache s' i = Some d)"
proof (cases "ps = []")
  case True
  with assms have "s' = s" by (simp add: executemany_def)
  then show ?thesis by (simp add: new_calls_def)
next
  case False
  let ?L = "Execute CacheSrc (lookup_sql k)"
  let ?c0 = "c\<lparr>description := None, colnames := None, coltypes := None, rowcount := - 1\<rparr>"
  obtain rb s1 where bt: "begin_transaction N s = (rb, s1)"
    by (cases "begin_transaction N s")
  from begin_transaction_cases[OF bt] obtain pre where
    pre: "issued s1 = issued s @ pre" "count_list pre ?L = 0" "type_cache s1 = type_cache s"
    by auto
  show ?thesis
  proof (cases rb)
    case (Some e)
    with assms False bt have "s' = s1" by (auto simp: executemany_def)
    with pre show ?thesis by (simp add: new_calls_def)
  next
    case None
    obtain rl c1 s2 where rs: "run_statements N E operation ps ''BEGIN'' 0 ?c0 s1 = (rl, c1, s2)"
      by (cases "run_statements N E operation ps ''BEGIN'' 0 ?c0 s1") auto
    from run_statements_frame[OF rs] obtain qs where
      l: "type_cache s2 = type_cache s1"
         "issued s2 = issued s1 @ map (Execute (CursorSrc (src ?c0))) qs"
      by auto
    have i2: "issued s2 = issued s @ (pre @ map (Execute (CursorSrc (src ?c0))) qs)"
      using pre(1) l(2) by simp
    have z2: "count_list (pre @ map (Execute (CursorSrc (src ?c0))) qs) ?L = 0"
      using pre(2) by (simp add: count_cursor_calls)
    show ?thesis
    proof (cases rl)
      case (Inl es)
      with assms False bt None rs have "s' = s2"
        by (auto simp: executemany_def split: prod.splits)
      with i2 z2 l(1) pre(3) show ?thesis by (simp add: new_calls_def)
    next
      case (Inr rc)
      with assms False bt None rs have fin: "finish N E rc c1 s2 = (r, c', s')"
        by (auto simp: executemany_def)
      from finish_count[OF fin, of k] have
        f: "issued s' = issued s2 @ new_calls s2 s'"
           "count_list (new_calls s2 s') ?L \<le> (if type_cache s2 k = None then 1 else 0)"
           "\<forall>i d. type_cache s2 i = Some d \<longrightarrow> type_cache s' i = Some d"
        by blast+
      have "new_calls s s' = (pre @ map (Execute (CursorSrc (src ?c0))) qs) @ new_calls s2 s'"
        using i2 f(1) by (rule new_calls_trans)
      then have "count_list (new_calls s s') ?L = count_list (new_calls s2 s') ?L"
        using z2 by simp
      with f(2,3) l(1) pre(3) show ?thesis by simp
    qed
  qed
qed

lemma executemany_keeps:
  assumes "type_cache s k = Some d"
  shows "keeps k d s (snd (snd (executemany N E operation ps c s)))"
proof -
  obtain r c' s' where e: "executemany N E operation ps c s = (r, c', s')"
    by (cases "executemany N E operation ps c s") auto
  from executemany_count[OF e, of k] assms e show ?thesis by (simp add: keeps_def)
qed

lemma execute_keeps:
  assumes "type_cache s k = Some d"
  shows "keeps k d s (snd (snd (execute N E operation p c s)))"
proof -
  from execute_unfold obtain ps where
    "execute N E operation p c s = executemany N E operation ps c s" by blast
  with executemany_keeps[OF assms] show ?thesis by simp
qed

lemma getdescr_keeps:
  assumes "type_cache s k = Some d"
  shows "keeps k d s (snd (getdescr N E j s))"
proof -
  obtain r s' where g: "getdescr N E j s = (r, s')" by (cases "getdescr N E j s")
  from getdescr_count(2)[OF g, of k] getdescr_count(3)[OF g assms] assms g
  show ?thesis by (simp add: keeps_def)
qed

lemma control_keeps:
  assumes "type_cache s k = Some d"
  shows "keeps k d s (snd (commit N s))" "keeps k d s (snd (rollback N s))"
    "keeps k d s (snd (close N s))" "keeps k d s (snd (cursor N s))"
  using assms
  by (auto simp: keeps_def new_calls_def commit_def rollback_def close_def cursor_def
      release_def source_execute_def split: option.splits sum.splits if_splits prod.splits)

section \<open>Properties\<close>

subsection \<open>Empty parameter sequence\<close>

text \<open>
  C8: \<open>executemany\<close> with an empty sequence of parameter sets does nothing. It returns
  at once with the connection state (transaction flag and list of issued native calls,
  so neither a statement nor a \<open>BEGIN\<close>) and every cursor attribute (description, column
  names and types, rowcount) as they were; on a newly made cursor the rowcount stays
  at \<open>-1\<close>, the value for "unknown".
\<close>

theorem executemany_empty_is_noop:
  "executemany N E operation [] c s = (Inr RetNone, c, s)
   \<and> rowcount (fst (snd (executemany N E operation [] (new_cursor k) s))) = - 1"
  by (simp add: executemany_def new_cursor_def)

subsection \<open>Closed connections\<close>

lemma closed_ops:
  assumes "cnx s = None"
  shows "cursor N s = (Inl closed_error, s)" "commit N s = (Inl closed_error, s)"
    "rollback N s = (Inl closed_error, s)" "close N s = (Inl closed_error, s)"
  using assms by (simp_all add: cursor_def commit_def rollback_def close_def)

lemma close_ok_closed: "close N s0 = (Inr u, s) \<Longrightarrow> cnx s = None"
  by (auto simp: close_def release_def split: option.splits if_splits prod.splits sum.splits)

text \<open>
  C6: once \<open>close\<close> has returned, the connection holds no native handle, and each of
  \<open>cursor\<close>, \<open>commit\<close>, \<open>rollback\<close> and a second \<open>close\<close> raises the
  \<open>OperationalError\<close> "connection has been closed", whatever the native side would
  answer, and changes nothing.
\<close>

theorem closed_connection_raises_operational_error:
  assumes "close N s0 = (Inr u, s)"
  shows "cnx s = None
    \<and> closed_error = Exc OperationalError ''connection has been closed''
    \<and> cursor N' s = (Inl closed_error, s)
    \<and> commit N' s = (Inl closed_error, s)
    \<and> rollback N' s = (Inl closed_error, s)
    \<and> close N' s = (Inl closed_error, s)"
  using close_ok_closed[OF assms] closed_ops[of s N']
  by (simp add: closed_error_def op_error_def db_error_def)

theorem closed_connection_witness:
  "close quiet_native open_state =
     (Inr (), \<lparr>cnx = None, tnx = False, type_cache = Map.empty,
               issued = [NewSource, Execute TnxSrc ''ROLLBACK'', CloseCnx]\<rparr>)
   \<and> fst (cursor quiet_native (snd (close quiet_native open_state)))
       = Inl (Exc OperationalError ''connection has been closed'')
   \<and> fst (commit quiet_native (snd (close quiet_native open_state)))
       = Inl (Exc OperationalError ''connection has been closed'')
   \<and> fst (rollback quiet_native (snd (close quiet_native open_state)))
       = Inl (Exc OperationalError ''connection has been closed'')
   \<and> fst (close quiet_native (snd (close quiet_native open_state)))
       = Inl (Exc OperationalError ''connection has been closed'')"
proof -
  have c: "close quiet_native open_state =
     (Inr (), \<lparr>cnx = None, tnx = False, type_cache = Map.empty,
               issued = [NewSource, Execute TnxSrc ''ROLLBACK'', CloseCnx]\<rparr>)"
    by (simp add: close_def rollback_def release_def source_execute_def quiet_native_def
        open_state_def)
  from closed_connection_raises_operational_error[OF c, of quiet_native] c
  show ?thesis by simp
qed

subsection \<open>Closing inside a transaction\<close>

text \<open>
  C7: \<open>close\<close> on an open connection whose transaction flag is set runs the rollback
  (a new source, then \<open>ROLLBACK\<close> on it when the source was obtained), passes over
  whatever that rollback raises, then calls the native \<open>close\<close> and drops the handle.
  Provided the native \<open>close\<close> itself returns, \<open>close\<close> returns normally, whether or not
  the rollback failed, with the flag cleared and the connection closed.
\<close>

theorem close_suppresses_rollback_error:
  assumes "cnx s \<noteq> None" and "tnx s"
    and "close_reply N (issued (snd (rollback N s))) = None"
  shows "fst (close N s) = Inr ()
    \<and> cnx (snd (close N s)) = None
    \<and> tnx (snd (close N s)) = False
    \<and> issued (snd (close N s)) = issued (snd (rollback N s)) @ [CloseCnx]
    \<and> (issued (snd (rollback N s)) = issued s @ [NewSource]
        \<or> issued (snd (rollback N s)) = issued s @ [NewSource, Execute TnxSrc ''ROLLBACK''])"
proof -
  obtain r s1 where rb: "rollback N s = (r, s1)" by (cases "rollback N s")
  note out = rollback_outcome[OF assms(1,2) rb]
  have db: "\<And>e. r = Inl e \<Longrightarrow> is_DatabaseError (cls e)" by (rule out(5))
  from assms(3) rb have cr: "close_reply N (issued s1) = None" by simp
  have "close N s = release N s1"
    using assms(1,2) rb db by (cases r) (auto simp: close_def)
  with cr have "close N s = (Inr (), s1\<lparr>issued := issued s1 @ [CloseCnx], cnx := None\<rparr>)"
    by (simp add: release_def)
  with out(1,4) rb show ?thesis by simp
qed

theorem close_suppresses_rollback_error_witness:
  "fst (rollback broken_native open_state)
     = Inl (Exc OperationalError (''can'' @ [CHR 0x27] @ ''t rollback''))
   \<and> close broken_native open_state =
       (Inr (), \<lparr>cnx = None, tnx = False, type_cache = Map.empty,
                 issued = [NewSource, Execute TnxSrc ''ROLLBACK'', CloseCnx]\<rparr>)"
proof -
  have rb: "rollback broken_native open_state =
      (Inl (Exc OperationalError (''can'' @ [CHR 0x27] @ ''t rollback'')),
       \<lparr>cnx = Some NativeCnx, tnx = False, type_cache = Map.empty,
        issued = [NewSource, Execute TnxSrc ''ROLLBACK'']\<rparr>)"
    by (simp add: rollback_def source_execute_def broken_native_def quiet_native_def
        open_state_def reraise_or_op_error_def op_error_def db_error_def apos_def)
  have h1: "cnx open_state \<noteq> None" and h2: "tnx open_state"
    by (simp_all add: open_state_def)
  have h3: "close_reply broken_native (issued (snd (rollback broken_native open_state))) = None"
    by (simp add: broken_native_def quiet_native_def)
  from close_suppresses_rollback_error[OF h1 h2 h3] rb
  have "fst (close broken_native open_state) = Inr ()"
    "cnx (snd (close broken_native open_state)) = None"
    "tnx (snd (close broken_native open_state)) = False"
    "issued (snd (close broken_native open_state)) = [NewSource, Execute TnxSrc ''ROLLBACK'', CloseCnx]"
    by simp_all
  moreover have "type_cache (snd (close broken_native open_state)) = Map.empty"
    using rb by (simp add: close_def release_def open_state_def broken_native_def quiet_native_def
        op_error_def db_error_def)
  ultimately have "close broken_native open_state =
       (Inr (), \<lparr>cnx = None, tnx = False, type_cache = Map.empty,
                 issued = [NewSource, Execute TnxSrc ''ROLLBACK'', CloseCnx]\<rparr>)"
    by (cases "close broken_native open_state") (auto intro: state.equality)
  with rb show ?thesis by simp
qed

subsection \<open>The implicit transaction\<close>

text \<open>
  C1: take any \<open>executemany\<close> or \<open>execute\<close> call. When the transaction flag is not
  set and the call gets as far as running a statement on the cursor's source, the
  calls it issues start with a new source and \<open>BEGIN\<close> on it, that \<open>BEGIN\<close> is the only
  transaction command of the call, and the flag is set afterwards. When the flag is
  set, the call issues no transaction command at all and leaves the flag set; so does
  any sequence of further \<open>execute\<close> and \<open>executemany\<close> calls, on any cursors, whether
  they raise or not.
\<close>

theorem implicit_begin_exactly_once:
  assumes "run = executemany N E operation ps \<or> run = execute N E operation p"
    and "run c s = (r, c', s')"
  shows "issued s' = issued s @ new_calls s s'
    \<and> (\<not> tnx s \<and> (\<exists>q. Execute (CursorSrc (src c)) q \<in> set (new_calls s s')) \<longrightarrow>
         tnx s' \<and> tnx_commands (new_calls s s') = [''BEGIN'']
         \<and> (\<exists>rest. new_calls s s' = NewSource # Execute TnxSrc ''BEGIN'' # rest))
    \<and> (tnx s \<longrightarrow>
         tnx s' \<and> tnx_commands (new_calls s s') = []
         \<and> tnx (perform_all N E calls s)
         \<and> tnx_commands (new_calls s (perform_all N E calls s)) = [])"
proof -
  from assms execute_unfold[of N E operation p c s]
  obtain ps' where "executemany N E operation ps' c s = (r, c', s')" by auto
  from executemany_begin[OF this] perform_all_in_transaction[of s N E calls]
  show ?thesis by blast
qed

theorem implicit_begin_exactly_once_witness:
  "executemany quiet_native sample_env ''INSERT INTO t VALUES(%s)''
       [VTuple [VInt 1], VTuple [VInt 2]] (new_cursor 0) idle_state =
     (Inr RetSelf, (new_cursor 0)\<lparr>rowcount := 2\<rparr>,
      \<lparr>cnx = Some NativeCnx, tnx = True, type_cache = Map.empty,
       issued = [NewSource, Execute TnxSrc ''BEGIN'',
                 Execute (CursorSrc 0) ''INSERT INTO t VALUES(1)'',
                 Execute (CursorSrc 0) ''INSERT INTO t VALUES(2)'']\<rparr>)
   \<and> \<not> tnx idle_state
   \<and> tnx_commands [NewSource, Execute TnxSrc ''BEGIN'',
                 Execute (CursorSrc 0) ''INSERT INTO t VALUES(1)'',
                 Execute (CursorSrc 0) ''INSERT INTO t VALUES(2)''] = [''BEGIN'']
   \<and> tnx_commands (new_calls
         \<lparr>cnx = Some NativeCnx, tnx = True, type_cache = Map.empty,
          issued = [NewSource, Execute TnxSrc ''BEGIN'',
                 Execute (CursorSrc 0) ''INSERT INTO t VALUES(1)'',
                 Execute (CursorSrc 0) ''INSERT INTO t VALUES(2)'']\<rparr>
         (snd (snd (execute quiet_native sample_env ''INSERT INTO t VALUES(%s)'' (VTuple [VInt 3])
            (new_cursor 0)
            \<lparr>cnx = Some NativeCnx, tnx = True, type_cache = Map.empty,
             issued = [NewSource, Execute TnxSrc ''BEGIN'',
                 Execute (CursorSrc 0) ''INSERT INTO t VALUES(1)'',
                 Execute (CursorSrc 0) ''INSERT INTO t VALUES(2)'']\<rparr>)))) = []"
proof -
  let ?s1 = "\<lparr>cnx = Some NativeCnx, tnx = True, type_cache = Map.empty,
       issued = [NewSource, Execute TnxSrc ''BEGIN'',
                 Execute (CursorSrc 0) ''INSERT INTO t VALUES(1)'',
                 Execute (CursorSrc 0) ''INSERT INTO t VALUES(2)'']\<rparr>"
  have ev: "executemany quiet_native sample_env ''INSERT INTO t VALUES(%s)''
       [VTuple [VInt 1], VTuple [VInt 2]] (new_cursor 0) idle_state =
     (Inr RetSelf, (new_cursor 0)\<lparr>rowcount := 2\<rparr>, ?s1)"
    by (simp add: executemany_def begin_transaction_def source_execute_def finish_def
        quoteparams_def quiet_native_def sample_env_def idle_state_def new_cursor_def
        show_int_digit)
  have idle: "\<not> tnx idle_state" by (simp add: idle_state_def)
  have nc: "new_calls idle_state ?s1 = [NewSource, Execute TnxSrc ''BEGIN'',
                 Execute (CursorSrc 0) ''INSERT INTO t VALUES(1)'',
                 Execute (CursorSrc 0) ''INSERT INTO t VALUES(2)'']"
    by (simp add: new_calls_def idle_state_def)
  have ran: "\<exists>q. Execute (CursorSrc (src (new_cursor 0))) q \<in> set (new_calls idle_state ?s1)"
    unfolding nc by (auto simp: new_cursor_def)
  from implicit_begin_exactly_once[OF disjI1[OF refl] ev] idle ran
  have first: "tnx_commands (new_calls idle_state ?s1) = [''BEGIN'']" by blast
  obtain r2 c2 s2 where ev2: "execute quiet_native sample_env ''INSERT INTO t VALUES(%s)''
      (VTuple [VInt 3]) (new_cursor 0) ?s1 = (r2, c2, s2)"
    by (cases "execute quiet_native sample_env ''INSERT INTO t VALUES(%s)''
      (VTuple [VInt 3]) (new_cursor 0) ?s1") auto
  have "tnx ?s1" by simp
  with implicit_begin_exactly_once[OF disjI2[OF refl] ev2]
  have "tnx_commands (new_calls ?s1 s2) = []" by blast
  with ev ev2 idle first nc show ?thesis by simp
qed

subsection \<open>Failure inside a batch\<close>

text \<open>
  C5: when \<open>executemany\<close> raises, none of the calls it issued is a \<open>ROLLBACK\<close>, the
  connection keeps its native handle, and if the flag was set before or a statement
  of the batch was run, the flag is set when the exception reaches the caller.
\<close>

theorem batch_failure_leaves_transaction_open:
  assumes "executemany N E operation ps c s = (Inl e, c', s')"
  shows "''ROLLBACK'' \<notin> set (tnx_commands (new_calls s s'))
    \<and> (tnx s \<or> (\<exists>q. Execute (CursorSrc (src c)) q \<in> set (new_calls s s')) \<longrightarrow> tnx s')
    \<and> cnx s' = cnx s"
proof -
  have "ps \<noteq> []" using assms by (auto simp: executemany_def)
  from executemany_calls[OF assms this] have cn: "cnx s' = cnx s" by blast
  from executemany_begin[OF assms]
  have b: "tnx s \<longrightarrow> tnx s' \<and> tnx_commands (new_calls s s') = []"
    "\<not> tnx s \<and> (\<exists>q. Execute (CursorSrc (src c)) q \<in> set (new_calls s s')) \<longrightarrow>
         tnx s' \<and> tnx_commands (new_calls s s') = [''BEGIN'']"
    by blast+
  from executemany_calls[OF assms \<open>ps \<noteq> []\<close>] obtain pre qs post where
    i: "issued s' = issued s @ pre @ map (Execute (CursorSrc (src c))) qs @ post"
    and p: "list_all on_cache post"
    and pre: "pre = [] \<or> pre = [NewSource] \<or> pre = [NewSource, Execute TnxSrc ''BEGIN'']"
    by (cases "tnx s") blast+
  have "new_calls s s' = pre @ map (Execute (CursorSrc (src c))) qs @ post"
    using i by (rule new_calls_append)
  then have "tnx_commands (new_calls s s') = tnx_commands pre"
    by (simp add: tnx_commands_append tnx_commands_cursor tnx_commands_cache[OF p])
  with pre have "''ROLLBACK'' \<notin> set (tnx_commands (new_calls s s'))" by auto
  with b cn show ?thesis by blast
qed

theorem batch_failure_witness:
  "executemany failing_native sample_env ''INSERT INTO t VALUES(%s)''
       [VTuple [VInt 1], VTuple [VInt 2], VTuple [VInt 3]] (new_cursor 0) idle_state =
     (Inl (Exc ProgrammingError ''syntax error''), new_cursor 0,
      \<lparr>cnx = Some NativeCnx, tnx = True, type_cache = Map.empty,
       issued = [NewSource, Execute TnxSrc ''BEGIN'',
                 Execute (CursorSrc 0) ''INSERT INTO t VALUES(1)'',
                 Execute (CursorSrc 0) ''INSERT INTO t VALUES(2)'']\<rparr>)
   \<and> ''ROLLBACK'' \<notin> set (tnx_commands [NewSource, Execute TnxSrc ''BEGIN'',
                 Execute (CursorSrc 0) ''INSERT INTO t VALUES(1)'',
                 Execute (CursorSrc 0) ''INSERT INTO t VALUES(2)''])"
proof -
  let ?s1 = "\<lparr>cnx = Some NativeCnx, tnx = True, type_cache = Map.empty,
       issued = [NewSource, Execute TnxSrc ''BEGIN'',
                 Execute (CursorSrc 0) ''INSERT INTO t VALUES(1)'',
                 Execute (CursorSrc 0) ''INSERT INTO t VALUES(2)'']\<rparr>"
  have ev: "executemany failing_native sample_env ''INSERT INTO t VALUES(%s)''
       [VTuple [VInt 1], VTuple [VInt 2], VTuple [VInt 3]] (new_cursor 0) idle_state =
     (Inl (Exc ProgrammingError ''syntax error''), new_cursor 0, ?s1)"
    by (simp add: executemany_def begin_transaction_def source_execute_def
        quoteparams_def failing_native_def quiet_native_def sample_env_def idle_state_def
        new_cursor_def show_int_digit wrap_exec_error_def)
  have nc: "new_calls idle_state ?s1 = [NewSource, Execute TnxSrc ''BEGIN'',
                 Execute (CursorSrc 0) ''INSERT INTO t VALUES(1)'',
                 Execute (CursorSrc 0) ''INSERT INTO t VALUES(2)'']"
    by (simp add: new_calls_def idle_state_def)
  have ran: "\<exists>q. Execute (CursorSrc (src (new_cursor 0))) q \<in> set (new_calls idle_state ?s1)"
    unfolding nc by (auto simp: new_cursor_def)
  from batch_failure_leaves_transaction_open[OF ev] ran
  have "''ROLLBACK'' \<notin> set (tnx_commands (new_calls idle_state ?s1))" "tnx ?s1"
    by blast+
  with ev nc show ?thesis by simp
qed

subsection \<open>Commit and rollback\<close>

text \<open>
  C10: on an open connection with the flag set, \<open>commit\<close> and \<open>rollback\<close> leave the flag
  cleared whatever the outcome, also when the source could not be obtained or the
  native \<open>COMMIT\<close> / \<open>ROLLBACK\<close> raised. In the state they leave, a \<open>commit\<close> or
  \<open>rollback\<close> returns without any native call, and a non-empty \<open>executemany\<close> whose
  \<open>source()\<close> call succeeds starts with a new implicit \<open>BEGIN\<close>.
\<close>

theorem failed_commit_leaves_no_transaction:
  assumes "cnx s \<noteq> None" and "tnx s"
    and "commit N s = (rc, sc)" and "rollback N s = (rr, sr)"
  shows "tnx sc = False \<and> tnx sr = False
    \<and> (issued sc = issued s @ [NewSource]
        \<or> issued sc = issued s @ [NewSource, Execute TnxSrc ''COMMIT''])
    \<and> (issued sr = issued s @ [NewSource]
        \<or> issued sr = issued s @ [NewSource, Execute TnxSrc ''ROLLBACK''])
    \<and> commit N' sc = (Inr (), sc) \<and> rollback N' sc = (Inr (), sc)
    \<and> commit N' sr = (Inr (), sr) \<and> rollback N' sr = (Inr (), sr)
    \<and> (ps \<noteq> [] \<and> source_reply N' (issued sc) = None \<longrightarrow>
         (\<exists>rest. new_calls sc (snd (snd (executemany N' E operation ps c sc)))
            = NewSource # Execute TnxSrc ''BEGIN'' # rest))
    \<and> (ps \<noteq> [] \<and> source_reply N' (issued sr) = None \<longrightarrow>
         (\<exists>rest. new_calls sr (snd (snd (executemany N' E operation ps c sr)))
            = NewSource # Execute TnxSrc ''BEGIN'' # rest))"
proof -
  note co = commit_outcome[OF assms(1,2,3)]
  note ro = rollback_outcome[OF assms(1,2,4)]
  have c: "cnx sc \<noteq> None" "\<not> tnx sc" using co(1,2) assms(1) by auto
  have r: "cnx sr \<noteq> None" "\<not> tnx sr" using ro(1,2) assms(1) by auto
  have 1: "commit N' sc = (Inr (), sc)" "rollback N' sc = (Inr (), sc)"
    by (rule idle_next(1)[OF c], rule idle_next(2)[OF c])
  have 2: "commit N' sr = (Inr (), sr)" "rollback N' sr = (Inr (), sr)"
    by (rule idle_next(1)[OF r], rule idle_next(2)[OF r])
  have 3: "ps \<noteq> [] \<and> source_reply N' (issued sc) = None \<longrightarrow>
         (\<exists>rest. new_calls sc (snd (snd (executemany N' E operation ps c sc)))
            = NewSource # Execute TnxSrc ''BEGIN'' # rest)"
    by (rule idle_next(3)[OF c])
  have 4: "ps \<noteq> [] \<and> source_reply N' (issued sr) = None \<longrightarrow>
         (\<exists>rest. new_calls sr (snd (snd (executemany N' E operation ps c sr)))
            = NewSource # Execute TnxSrc ''BEGIN'' # rest)"
    by (rule idle_next(3)[OF r])
  from co(1,4) ro(1,4) 1 2 3 4 show ?thesis by blast
qed

theorem failed_commit_witness:
  "commit broken_native open_state =
     (Inl (Exc OperationalError (''can'' @ [CHR 0x27] @ ''t commit'')),
      \<lparr>cnx = Some NativeCnx, tnx = False, type_cache = Map.empty,
       issued = [NewSource, Execute TnxSrc ''COMMIT'']\<rparr>)
   \<and> rollback broken_native open_state =
     (Inl (Exc OperationalError (''can'' @ [CHR 0x27] @ ''t rollback'')),
      \<lparr>cnx = Some NativeCnx, tnx = False, type_cache = Map.empty,
       issued = [NewSource, Execute TnxSrc ''ROLLBACK'']\<rparr>)
   \<and> commit quiet_native \<lparr>cnx = Some NativeCnx, tnx = False, type_cache = Map.empty,
       issued = [NewSource, Execute TnxSrc ''COMMIT'']\<rparr>
      = (Inr (), \<lparr>cnx = Some NativeCnx, tnx = False, type_cache = Map.empty,
       issued = [NewSource, Execute TnxSrc ''COMMIT'']\<rparr>)
   \<and> (\<exists>rest. new_calls \<lparr>cnx = Some NativeCnx, tnx = False, type_cache = Map.empty,
           issued = [NewSource, Execute TnxSrc ''COMMIT'']\<rparr>
         (snd (snd (executemany quiet_native sample_env ''SELECT 1'' [VNone] (new_cursor 0)
            \<lparr>cnx = Some NativeCnx, tnx = False, type_cache = Map.empty,
              issued = [NewSource, Execute TnxSrc ''COMMIT'']\<rparr>)))
        = NewSource # Execute TnxSrc ''BEGIN'' # rest)"
proof -
  let ?sc = "\<lparr>cnx = Some NativeCnx, tnx = False, type_cache = Map.empty,
       issued = [NewSource, Execute TnxSrc ''COMMIT'']\<rparr>"
  let ?sr = "\<lparr>cnx = Some NativeCnx, tnx = False, type_cache = Map.empty,
       issued = [NewSource, Execute TnxSrc ''ROLLBACK'']\<rparr>"
  have co: "commit broken_native open_state =
     (Inl (Exc OperationalError (''can'' @ [CHR 0x27] @ ''t commit'')), ?sc)"
    by (simp add: commit_def source_execute_def broken_native_def quiet_native_def
        open_state_def reraise_or_op_error_def op_error_def db_error_def apos_def)
  have ro: "rollback broken_native open_state =
     (Inl (Exc OperationalError (''can'' @ [CHR 0x27] @ ''t rollback'')), ?sr)"
    by (simp add: rollback_def source_execute_def broken_native_def quiet_native_def
        open_state_def reraise_or_op_error_def op_error_def db_error_def apos_def)
  have h1: "cnx open_state \<noteq> None" and h2: "tnx open_state"
    by (simp_all add: open_state_def)
  have h3: "[VNone] \<noteq> [] \<and> source_reply quiet_native (issued ?sc) = None"
    by (simp add: quiet_native_def)
  from failed_commit_leaves_no_transaction[OF h1 h2 co ro, of quiet_native "[VNone]" sample_env
      "''SELECT 1''" "new_cursor 0"] h3
  have "commit quiet_native ?sc = (Inr (), ?sc)"
    "\<exists>rest. new_calls ?sc (snd (snd (executemany quiet_native sample_env ''SELECT 1'' [VNone]
        (new_cursor 0) ?sc))) = NewSource # Execute TnxSrc ''BEGIN'' # rest"
    by blast+
  with co ro show ?thesis by blast
qed

subsection \<open>Quoting\<close>

text \<open>
  C2: \<open>_quote\<close> is a closed dispatch. A value that is of none of the supported kinds
  raises the \<open>InterfaceError\<close> "do not know how to handle type ..."; a value is rendered
  exactly when it and, through lists and tuples, all its elements are of supported
  kinds; and \<open>InterfaceError\<close> is the only exception \<open>_quote\<close> raises.
\<close>

theorem quote_is_closed_dispatch:
  "(\<not> supported_kind v \<longrightarrow>
      quote N E v = Inl (Exc InterfaceError (''do not know how to handle type '' @ py_type E v)))
   \<and> ((\<exists>q. quote N E v = Inr q) \<longleftrightarrow> renderable v)
   \<and> (\<forall>e. quote N E v = Inl e \<longrightarrow> cls e = InterfaceError)"
proof -
  have "\<not> supported_kind v \<longrightarrow>
      quote N E v = Inl (Exc InterfaceError (''do not know how to handle type '' @ py_type E v))"
    by (cases v) simp_all
  with quote_errors(1)[of N E v] quote_renders(1)[of N E v] show ?thesis by blast
qed

theorem quote_is_closed_dispatch_witness:
  "\<not> supported_kind (VOther ''set'')
   \<and> quote quiet_native sample_env (VOther ''set'')
       = Inl (Exc InterfaceError ''do not know how to handle type set'')
   \<and> \<not> supported_kind (VDict [(''a'', VInt 1)])
   \<and> quote quiet_native sample_env (VDict [(''a'', VInt 1)])
       = Inl (Exc InterfaceError ''do not know how to handle type dict'')
   \<and> quote quiet_native sample_env (VList [VInt 1, VOther ''set''])
       = Inl (Exc InterfaceError ''do not know how to handle type set'')
   \<and> quote quiet_native sample_env (VList [VInt 1, VStr ''a'', VNone])
       = Inr (VStr (''(1,'' @ [CHR 0x27, CHR ''a'', CHR 0x27] @ '',NULL)''))"
proof -
  have a: "\<not> supported_kind (VOther ''set'')" and b: "\<not> supported_kind (VDict [(''a'', VInt 1)])"
    by simp_all
  from quote_is_closed_dispatch[of "VOther ''set''" quiet_native sample_env] a
  have 1: "quote quiet_native sample_env (VOther ''set'')
       = Inl (Exc InterfaceError (''do not know how to handle type '' @ py_type sample_env (VOther ''set'')))"
    by blast
  from quote_is_closed_dispatch[of "VDict [(''a'', VInt 1)]" quiet_native sample_env] b
  have 2: "quote quiet_native sample_env (VDict [(''a'', VInt 1)])
       = Inl (Exc InterfaceError (''do not know how to handle type '' @ py_type sample_env (VDict [(''a'', VInt 1)])))"
    by blast
  have 3: "quote quiet_native sample_env (VList [VInt 1, VOther ''set''])
       = Inl (Exc InterfaceError ''do not know how to handle type set'')"
    by (simp add: sample_env_def)
  have 4: "quote quiet_native sample_env (VList [VInt 1, VStr ''a'', VNone])
       = Inr (VStr (''(1,'' @ [CHR 0x27, CHR ''a'', CHR 0x27] @ '',NULL)''))"
    by (simp add: quiet_native_def show_int_digit squote_def apos_def)
  from a b 1 2 3 4 show ?thesis by (simp add: sample_env_def)
qed

subsection \<open>Float sentinels\<close>

text \<open>
  C3: \<open>_quote\<close> renders positive infinity as the text \<open>Infinity\<close> between two
  apostrophes (character \<open>0x27\<close>), negative infinity as \<open>-Infinity\<close> between two
  apostrophes and NaN as \<open>NaN\<close> between two apostrophes. On a runtime that knows the
  sentinels, the typecast of a \<open>float8\<close> or \<open>float4\<close> column gives positive infinity
  for the text \<open>Infinity\<close>, negative infinity for \<open>-Infinity\<close> and NaN for \<open>NaN\<close>, so
  the three values come back as they were quoted; and a text other than these three
  on which \<open>float\<close> raises \<open>ValueError\<close> makes the typecast raise that \<open>ValueError\<close>.
\<close>

theorem float_sentinels_round_trip:
  assumes "sentinel_runtime E"
  shows "quote N E' (VFloat PInf) = Inr (VStr (CHR 0x27 # ''Infinity'' @ [CHR 0x27]))
    \<and> quote N E' (VFloat NInf) = Inr (VStr (CHR 0x27 # ''-Infinity'' @ [CHR 0x27]))
    \<and> quote N E' (VFloat NaN) = Inr (VStr (CHR 0x27 # ''NaN'' @ [CHR 0x27]))
    \<and> typecast E ''float8'' (Some ''Infinity'') = Inr (VFloat PInf)
    \<and> typecast E ''float8'' (Some ''-Infinity'') = Inr (VFloat NInf)
    \<and> typecast E ''float8'' (Some ''NaN'') = Inr (VFloat NaN)
    \<and> typecast E ''float4'' (Some ''Infinity'') = Inr (VFloat PInf)
    \<and> typecast E ''float4'' (Some ''-Infinity'') = Inr (VFloat NInf)
    \<and> typecast E ''float4'' (Some ''NaN'') = Inr (VFloat NaN)
    \<and> (\<forall>t e. py_float E t = Inl e \<and> cls e = ValueError
           \<and> t \<noteq> ''NaN'' \<and> t \<noteq> ''Infinity'' \<and> t \<noteq> ''-Infinity'' \<longrightarrow>
           typecast E ''float8'' (Some t) = Inl e \<and> typecast E ''float4'' (Some t) = Inl e)"
proof -
  have q: "quote N E' (VFloat PInf) = Inr (VStr (CHR 0x27 # ''Infinity'' @ [CHR 0x27]))"
    "quote N E' (VFloat NInf) = Inr (VStr (CHR 0x27 # ''-Infinity'' @ [CHR 0x27]))"
    "quote N E' (VFloat NaN) = Inr (VStr (CHR 0x27 # ''NaN'' @ [CHR 0x27]))"
    by (simp_all add: squote_def apos_def)
  have n: "cast_float E ''NaN'' = Inr NaN"
    using assms
    by (auto simp: sentinel_runtime_def cast_float_def is_value_error_def read_name_def
        split: sum.splits)
  have p: "cast_float E ''Infinity'' = Inr PInf"
    using assms
    by (auto simp: sentinel_runtime_def cast_float_def is_value_error_def read_name_def
        split: sum.splits)
  have m: "cast_float E ''-Infinity'' = Inr NInf"
    using assms
    by (auto simp: sentinel_runtime_def cast_float_def is_value_error_def read_name_def
        split: sum.splits)
  have t8: "\<And>t. typecast E ''float8'' (Some t) = map_sum id VFloat (cast_float E t)"
    and t4: "\<And>t. typecast E ''float4'' (Some t) = map_sum id VFloat (cast_float E t)"
    by (simp_all add: typecast_def cast_table_def)
  have u: "\<forall>t e. py_float E t = Inl e \<and> cls e = ValueError
           \<and> t \<noteq> ''NaN'' \<and> t \<noteq> ''Infinity'' \<and> t \<noteq> ''-Infinity'' \<longrightarrow>
           typecast E ''float8'' (Some t) = Inl e \<and> typecast E ''float4'' (Some t) = Inl e"
    unfolding t8 t4 by (simp add: cast_float_def)
  have c: "typecast E ''float8'' (Some ''Infinity'') = Inr (VFloat PInf)"
    "typecast E ''float8'' (Some ''-Infinity'') = Inr (VFloat NInf)"
    "typecast E ''float8'' (Some ''NaN'') = Inr (VFloat NaN)"
    "typecast E ''float4'' (Some ''Infinity'') = Inr (VFloat PInf)"
    "typecast E ''float4'' (Some ''-Infinity'') = Inr (VFloat NInf)"
    "typecast E ''float4'' (Some ''NaN'') = Inr (VFloat NaN)"
    by (simp_all add: t8 t4 n p m)
  from q c u show ?thesis by blast
qed

theorem float_sentinels_witness:
  "sentinel_runtime sample_env
   \<and> quote quiet_native sample_env (VFloat PInf)
       = Inr (VStr [CHR 0x27, CHR ''I'', CHR ''n'', CHR ''f'', CHR ''i'', CHR ''n'', CHR ''i'',
                    CHR ''t'', CHR ''y'', CHR 0x27])
   \<and> quote quiet_native sample_env (VFloat NInf)
       = Inr (VStr [CHR 0x27, CHR ''-'', CHR ''I'', CHR ''n'', CHR ''f'', CHR ''i'', CHR ''n'',
                    CHR ''i'', CHR ''t'', CHR ''y'', CHR 0x27])
   \<and> quote quiet_native sample_env (VFloat NaN)
       = Inr (VStr [CHR 0x27, CHR ''N'', CHR ''a'', CHR ''N'', CHR 0x27])
   \<and> typecast sample_env ''float8'' (Some ''Infinity'') = Inr (VFloat PInf)
   \<and> typecast sample_env ''float8'' (Some ''-Infinity'') = Inr (VFloat NInf)
   \<and> typecast sample_env ''float4'' (Some ''NaN'') = Inr (VFloat NaN)
   \<and> typecast sample_env ''float8'' (Some ''1,5'')
       = Inl (Exc ValueError ''could not convert string to float: 1,5'')"
proof -
  have s: "sentinel_runtime sample_env"
    by (simp add: sentinel_runtime_def sample_env_def)
  have f: "py_float sample_env ''1,5'' = Inl (Exc ValueError ''could not convert string to float: 1,5'')
      \<and> cls (Exc ValueError ''could not convert string to float: 1,5'') = ValueError
      \<and> ''1,5'' \<noteq> ''NaN'' \<and> ''1,5'' \<noteq> ''Infinity'' \<and> ''1,5'' \<noteq> ''-Infinity''"
    by (simp add: sample_env_def)
  note rt = float_sentinels_round_trip[OF s, of quiet_native sample_env]
  from rt have q: "quote quiet_native sample_env (VFloat PInf)
       = Inr (VStr (CHR 0x27 # ''Infinity'' @ [CHR 0x27]))"
    "quote quiet_native sample_env (VFloat NInf)
       = Inr (VStr (CHR 0x27 # ''-Infinity'' @ [CHR 0x27]))"
    "quote quiet_native sample_env (VFloat NaN)
       = Inr (VStr (CHR 0x27 # ''NaN'' @ [CHR 0x27]))"
    by blast+
  from rt f
  have c: "typecast sample_env ''float8'' (Some ''Infinity'') = Inr (VFloat PInf)"
    "typecast sample_env ''float8'' (Some ''-Infinity'') = Inr (VFloat NInf)"
    "typecast sample_env ''float4'' (Some ''NaN'') = Inr (VFloat NaN)"
    "typecast sample_env ''float8'' (Some ''1,5'')
       = Inl (Exc ValueError ''could not convert string to float: 1,5'')"
    by blast+
  from s q c show ?thesis by simp
qed

subsection \<open>Row count of a batch\<close>

text \<open>
  C4: let \<open>executemany\<close> return normally on a non-empty sequence, and let the native
  connection, after the final statement, report a result type other than
  \<open>RESULT_DQL\<close>. Then one statement per parameter set was run, the final statement is
  the last call issued, \<open>rowcount\<close> is the sum of the numbers that \<open>execute\<close> returned
  for the statements of the batch, and \<open>lastrowid\<close> is what \<open>oidstatus\<close> gives after
  the final statement. In particular, when every statement reports 1, \<open>rowcount\<close> is
  the number of parameter sets.
\<close>

theorem batch_rowcount_is_sum:
  assumes "executemany N E operation ps c s = (Inr RetSelf, c', s')"
    and "resulttype N (strip_lookups (issued s')) (CursorSrc (src c)) \<noteq> RESULT_DQL"
  shows "rowcount c' = sum_list (reported N (src c) (issued s) (new_calls s s'))
    \<and> length (statements (src c) (new_calls s s')) = length ps
    \<and> (\<exists>a q. issued s' = a @ [Execute (CursorSrc (src c)) q])
    \<and> oidstatus N (issued s') (CursorSrc (src c)) = Inr (lastrowid c')
    \<and> ((\<forall>h q. execute_reply N h (CursorSrc (src c)) q = Inr (Some 1)) \<longrightarrow>
         rowcount c' = int (length ps))"
proof -
  let ?k = "src c"
  let ?c0 = "c\<lparr>description := None, colnames := None, coltypes := None, rowcount := - 1\<rparr>"
  have ne: "ps \<noteq> []" using assms(1) by (auto simp: executemany_def)
  obtain rb s1 where bt: "begin_transaction N s = (rb, s1)"
    by (cases "begin_transaction N s")
  have rb: "rb = None"
    using assms(1) ne bt by (cases rb) (auto simp: executemany_def)
  obtain rl c1 s2 where rs: "run_statements N E operation ps ''BEGIN'' 0 ?c0 s1 = (rl, c1, s2)"
    by (cases "run_statements N E operation ps ''BEGIN'' 0 ?c0 s1") auto
  obtain rc where rl: "rl = Inr rc"
    using assms(1) ne bt rb rs by (cases rl) (auto simp: executemany_def)
  have fin: "finish N E rc c1 s2 = (Inr RetSelf, c', s')"
    using assms(1) ne bt rb rs rl by (simp add: executemany_def)
  from begin_transaction_cases[OF bt] rb obtain pre where
    pre: "issued s1 = issued s @ pre" "pre = [] \<or> pre = [NewSource, Execute TnxSrc ''BEGIN'']"
    by auto
  from run_statements_frame[OF rs] rl obtain qs where
    qs: "issued s2 = issued s1 @ map (Execute (CursorSrc ?k)) qs" "length qs = length ps"
      and c1: "src c1 = ?k"
    by auto
  from qs(2) ne obtain qs' q where qq: "qs = qs' @ [q]"
    by (cases qs rule: rev_cases) auto
  from finish_frame[OF fin] obtain post where
    post: "issued s' = issued s2 @ post" "list_all on_cache post"
    by auto
  define a where "a = issued s1 @ map (Execute (CursorSrc ?k)) qs'"
  have s2a: "issued s2 = a @ [Execute (CursorSrc ?k) q]"
    using qs(1) qq by (simp add: a_def)
  have "issued s' = a @ [Execute (CursorSrc ?k) q] @ post"
    using post(1) s2a by simp
  then have sl: "strip_lookups (issued s') = issued s2"
    using strip_lookups_stmt[OF post(2), of a ?k q] s2a by simp
  with assms(2) c1 have nd: "resulttype N (issued s2) (CursorSrc (src c1)) \<noteq> RESULT_DQL"
    by simp
  from fin nd obtain oid where
    oid: "oidstatus N (issued s2) (CursorSrc (src c1)) = Inr oid"
    and c': "c' = c1\<lparr>rowcount := rc, lastrowid := oid\<rparr>" and s': "s' = s2"
    by (cases "oidstatus N (issued s2) (CursorSrc (src c1))") (auto simp: finish_def)
  have nc: "new_calls s s' = pre @ map (Execute (CursorSrc ?k)) qs"
    using pre(1) qs(1) s' by (simp add: new_calls_def)
  have nc1: "new_calls s1 s2 = map (Execute (CursorSrc ?k)) qs"
    using qs(1) by (simp add: new_calls_def)
  have rp: "reported N ?k (issued s) pre = []" using pre(2) by auto
  from run_statements_rowcount[OF rs[unfolded rl]]
  have "rc = sum_list (reported N ?k (issued s1) (new_calls s1 s2))" by simp
  then have sum: "rc = sum_list (reported N ?k (issued s) (new_calls s s'))"
    by (simp add: nc nc1 reported_append rp pre(1))
  have st: "statements ?k (new_calls s s') = map (Execute (CursorSrc ?k)) qs"
    using pre(2) by (auto simp: nc statements_def)
  have last: "\<exists>a q. issued s' = a @ [Execute (CursorSrc ?k) q]"
    using s' qs(1) qq by (intro exI[of _ "issued s1 @ map (Execute (CursorSrc ?k)) qs'"] exI[of _ q]) simp
  have ones: "(\<forall>h q. execute_reply N h (CursorSrc ?k) q = Inr (Some 1)) \<longrightarrow> rc = int (length ps)"
  proof
    assume a: "\<forall>h q. execute_reply N h (CursorSrc ?k) q = Inr (Some 1)"
    have "reported N ?k (issued s) (new_calls s s') = replicate (length qs) 1"
      by (simp add: nc reported_append rp reported_all_one[OF a])
    with sum qs(2) show "rc = int (length ps)" by (simp add: sum_list_replicate)
  qed
  show ?thesis
    using sum st qs(2) last oid c1 ones by (simp add: c' s')
qed

theorem batch_rowcount_witness:
  "executemany quiet_native sample_env ''INSERT INTO t VALUES(%s)''
       [VTuple [VInt 1], VTuple [VInt 2], VTuple [VInt 3]] (new_cursor 0) idle_state =
     (Inr RetSelf, (new_cursor 0)\<lparr>rowcount := 3\<rparr>,
      \<lparr>cnx = Some NativeCnx, tnx = True, type_cache = Map.empty,
       issued = [NewSource, Execute TnxSrc ''BEGIN'',
                 Execute (CursorSrc 0) ''INSERT INTO t VALUES(1)'',
                 Execute (CursorSrc 0) ''INSERT INTO t VALUES(2)'',
                 Execute (CursorSrc 0) ''INSERT INTO t VALUES(3)'']\<rparr>)
   \<and> reported quiet_native 0 []
        [NewSource, Execute TnxSrc ''BEGIN'',
         Execute (CursorSrc 0) ''INSERT INTO t VALUES(1)'',
         Execute (CursorSrc 0) ''INSERT INTO t VALUES(2)'',
         Execute (CursorSrc 0) ''INSERT INTO t VALUES(3)''] = [1, 1, 1]
   \<and> rowcount ((new_cursor 0)\<lparr>rowcount := 3\<rparr>) = sum_list [1, 1, 1]
   \<and> rowcount ((new_cursor 0)\<lparr>rowcount := 3\<rparr>)
        = int (length [VTuple [VInt 1], VTuple [VInt 2], VTuple [VInt 3]])
   \<and> oidstatus quiet_native
        [NewSource, Execute TnxSrc ''BEGIN'',
         Execute (CursorSrc 0) ''INSERT INTO t VALUES(1)'',
         Execute (CursorSrc 0) ''INSERT INTO t VALUES(2)'',
         Execute (CursorSrc 0) ''INSERT INTO t VALUES(3)''] (CursorSrc 0)
        = Inr (lastrowid ((new_cursor 0)\<lparr>rowcount := 3\<rparr>))"
proof -
  let ?l = "[NewSource, Execute TnxSrc ''BEGIN'',
                 Execute (CursorSrc 0) ''INSERT INTO t VALUES(1)'',
                 Execute (CursorSrc 0) ''INSERT INTO t VALUES(2)'',
                 Execute (CursorSrc 0) ''INSERT INTO t VALUES(3)'']"
  let ?s1 = "\<lparr>cnx = Some NativeCnx, tnx = True, type_cache = Map.empty, issued = ?l\<rparr>"
  let ?c1 = "(new_cursor 0)\<lparr>rowcount := 3\<rparr>"
  have ev: "executemany quiet_native sample_env ''INSERT INTO t VALUES(%s)''
       [VTuple [VInt 1], VTuple [VInt 2], VTuple [VInt 3]] (new_cursor 0) idle_state =
     (Inr RetSelf, ?c1, ?s1)"
    by (simp add: executemany_def begin_transaction_def source_execute_def finish_def
        quoteparams_def quiet_native_def sample_env_def idle_state_def new_cursor_def
        show_int_digit)
  have nd: "resulttype quiet_native (strip_lookups (issued ?s1)) (CursorSrc (src (new_cursor 0)))
      \<noteq> RESULT_DQL"
    by (simp add: quiet_native_def)
  have all1: "\<forall>h q. execute_reply quiet_native h (CursorSrc (src (new_cursor 0))) q = Inr (Some 1)"
    by (simp add: quiet_native_def)
  have nc: "new_calls idle_state ?s1 = ?l"
    by (simp add: new_calls_def idle_state_def)
  have k: "src (new_cursor 0) = 0" by (simp add: new_cursor_def)
  have i: "issued idle_state = []" by (simp add: idle_state_def)
  have rep: "reported quiet_native 0 [] ?l = [1, 1, 1]"
    by (simp add: quiet_native_def)
  from batch_rowcount_is_sum[OF ev nd] all1
  have "rowcount ?c1 = sum_list (reported quiet_native 0 [] ?l)"
    "oidstatus quiet_native ?l (CursorSrc 0) = Inr (lastrowid ?c1)"
    "rowcount ?c1 = int (length [VTuple [VInt 1], VTuple [VInt 2], VTuple [VInt 3]])"
    unfolding nc k i by simp_all
  with ev rep show ?thesis by simp
qed

subsection \<open>Type cache\<close>

lemma lookup_sql_23: "lookup_sql 23 = ''SELECT typname, typlen FROM pg_type WHERE oid=23''"
  by (simp add: lookup_sql_def show_int_23)

lemma flaky_first_resolve:
  "getdescr flaky_catalog_native sample_env 23 idle_state =
     (Inl (Exc OperationalError ''server closed the connection''),
      \<lparr>cnx = Some NativeCnx, tnx = False, type_cache = Map.empty,
       issued = [Execute CacheSrc ''SELECT typname, typlen FROM pg_type WHERE oid=23'']\<rparr>)"
  by (simp add: getdescr_def lookup_sql_23 flaky_catalog_native_def catalog_native_def
      quiet_native_def idle_state_def)

lemma flaky_second_resolve:
  "getdescr flaky_catalog_native sample_env 23
      \<lparr>cnx = Some NativeCnx, tnx = False, type_cache = Map.empty,
       issued = [Execute CacheSrc ''SELECT typname, typlen FROM pg_type WHERE oid=23'']\<rparr> =
     (Inr (TypeDescr (Some ''int4'') 4),
      \<lparr>cnx = Some NativeCnx, tnx = False,
       type_cache = [23 \<mapsto> TypeDescr (Some ''int4'') 4],
       issued = [Execute CacheSrc ''SELECT typname, typlen FROM pg_type WHERE oid=23'',
                 Execute CacheSrc ''SELECT typname, typlen FROM pg_type WHERE oid=23'',
                 Fetch CacheSrc 1]\<rparr>)"
  by (simp add: getdescr_def lookup_sql_23 flaky_catalog_native_def catalog_native_def
      quiet_native_def sample_env_def descr_of_rows_def)

text \<open>
  C9, as the code has it: resolving a type oid that is not in the cache issues exactly
  one catalog statement for it. When that resolution succeeds (one statement, one
  fetch), the descriptor is stored, and from then on resolving the same oid returns
  that descriptor with no native call; an entry, once stored, stays: no operation of
  cursor or connection removes or changes it, and none issues a catalog statement for
  its oid again. When the resolution raises, the cache is as it was, and the next
  resolution of that oid issues the catalog statement again. Building a description
  resolves every column oid that was not cached with one catalog statement, however
  often the oid occurs, and a cached one with none.
\<close>

theorem type_cache_lookup_once_per_success:
  "(type_cache s k = None \<and> getdescr N E k s = (r, s') \<longrightarrow>
       count_list (new_calls s s') (Execute CacheSrc (lookup_sql k)) = 1
     \<and> (\<forall>d. r = Inr d \<longrightarrow>
          new_calls s s' = [Execute CacheSrc (lookup_sql k), Fetch CacheSrc 1]
        \<and> type_cache s' = (type_cache s)(k \<mapsto> d)
        \<and> getdescr N' E' k s' = (Inr d, s'))
     \<and> (\<forall>e. r = Inl e \<longrightarrow>
          type_cache s' = type_cache s
        \<and> count_list (new_calls s' (snd (getdescr N' E' k s')))
             (Execute CacheSrc (lookup_sql k)) = 1))
   \<and> (type_cache s k = Some d \<longrightarrow>
       getdescr N E k s = (Inr d, s)
     \<and> keeps k d s (snd (getdescr N E j s))
     \<and> keeps k d s (snd (snd (executemany N E operation ps c s)))
     \<and> keeps k d s (snd (snd (execute N E operation p c s)))
     \<and> keeps k d s (snd (commit N s)) \<and> keeps k d s (snd (rollback N s))
     \<and> keeps k d s (snd (close N s)) \<and> keeps k d s (snd (cursor N s)))
   \<and> (describe N E infos s = (Inr ds, s'') \<longrightarrow>
       count_list (new_calls s s'') (Execute CacheSrc (lookup_sql k))
         = (if k \<in> column_oids infos \<and> type_cache s k = None then 1 else 0))
   \<and> count_list (new_calls s (snd (snd (executemany N E operation ps c s))))
         (Execute CacheSrc (lookup_sql k)) \<le> 1"
proof (intro conjI impI)
  assume a: "type_cache s k = None \<and> getdescr N E k s = (r, s')"
  then have g: "getdescr N E k s = (r, s')" and m: "type_cache s k = None" by simp_all
  show "count_list (new_calls s s') (Execute CacheSrc (lookup_sql k)) = 1"
    using getdescr_count(2)[OF g, of k] m by simp
  show "\<forall>d. r = Inr d \<longrightarrow>
          new_calls s s' = [Execute CacheSrc (lookup_sql k), Fetch CacheSrc 1]
        \<and> type_cache s' = (type_cache s)(k \<mapsto> d)
        \<and> getdescr N' E' k s' = (Inr d, s')"
  proof (intro allI impI)
    fix d assume r: "r = Inr d"
    from getdescr_count(6)[OF g m r] getdescr_hit[OF getdescr_count(5)[OF g r], of N' E']
    show "new_calls s s' = [Execute CacheSrc (lookup_sql k), Fetch CacheSrc 1]
        \<and> type_cache s' = (type_cache s)(k \<mapsto> d)
        \<and> getdescr N' E' k s' = (Inr d, s')" by simp
  qed
  show "\<forall>e. r = Inl e \<longrightarrow>
          type_cache s' = type_cache s
        \<and> count_list (new_calls s' (snd (getdescr N' E' k s')))
             (Execute CacheSrc (lookup_sql k)) = 1"
  proof (intro allI impI)
    fix e assume r: "r = Inl e"
    from g r have same: "type_cache s' = type_cache s" by (simp add: getdescr_failure)
    obtain r2 s2 where g2: "getdescr N' E' k s' = (r2, s2)" by (cases "getdescr N' E' k s'")
    from getdescr_count(2)[OF g2, of k] same m g2
    show "type_cache s' = type_cache s
        \<and> count_list (new_calls s' (snd (getdescr N' E' k s')))
             (Execute CacheSrc (lookup_sql k)) = 1" by simp
  qed
next
  assume h: "type_cache s k = Some d"
  show "getdescr N E k s = (Inr d, s)" by (rule getdescr_hit[OF h])
  show "keeps k d s (snd (getdescr N E j s))" by (rule getdescr_keeps[OF h])
  show "keeps k d s (snd (snd (executemany N E operation ps c s)))"
    by (rule executemany_keeps[OF h])
  show "keeps k d s (snd (snd (execute N E operation p c s)))" by (rule execute_keeps[OF h])
  show "keeps k d s (snd (commit N s))" "keeps k d s (snd (rollback N s))"
    "keeps k d s (snd (close N s))" "keeps k d s (snd (cursor N s))"
    by (rule control_keeps[OF h])+
next
  assume "describe N E infos s = (Inr ds, s'')"
  from describe_count[OF this, of k]
  show "count_list (new_calls s s'') (Execute CacheSrc (lookup_sql k))
         = (if k \<in> column_oids infos \<and> type_cache s k = None then 1 else 0)" by blast
next
  obtain r1 c1 s1 where e: "executemany N E operation ps c s = (r1, c1, s1)"
    by (cases "executemany N E operation ps c s") auto
  from executemany_count[OF e, of k] e
  show "count_list (new_calls s (snd (snd (executemany N E operation ps c s))))
         (Execute CacheSrc (lookup_sql k)) \<le> 1" by (auto split: if_splits)
qed

theorem type_cache_lookup_once_per_success_witness:
  "getdescr catalog_native sample_env 23 idle_state =
     (Inr (TypeDescr (Some ''int4'') 4),
      \<lparr>cnx = Some NativeCnx, tnx = False,
       type_cache = [23 \<mapsto> TypeDescr (Some ''int4'') 4],
       issued = [Execute CacheSrc ''SELECT typname, typlen FROM pg_type WHERE oid=23'',
                 Fetch CacheSrc 1]\<rparr>)
   \<and> getdescr quiet_native sample_env 23
       \<lparr>cnx = Some NativeCnx, tnx = False,
        type_cache = [23 \<mapsto> TypeDescr (Some ''int4'') 4],
        issued = [Execute CacheSrc ''SELECT typname, typlen FROM pg_type WHERE oid=23'',
                  Fetch CacheSrc 1]\<rparr> =
     (Inr (TypeDescr (Some ''int4'') 4),
      \<lparr>cnx = Some NativeCnx, tnx = False,
       type_cache = [23 \<mapsto> TypeDescr (Some ''int4'') 4],
       issued = [Execute CacheSrc ''SELECT typname, typlen FROM pg_type WHERE oid=23'',
                 Fetch CacheSrc 1]\<rparr>)
   \<and> describe catalog_native sample_env [(0, ''a'', 23), (1, ''b'', 23)] idle_state =
     (Inr [CursorDescription ''a'' (Some ''int4'') 4, CursorDescription ''b'' (Some ''int4'') 4],
      \<lparr>cnx = Some NativeCnx, tnx = False,
       type_cache = [23 \<mapsto> TypeDescr (Some ''int4'') 4],
       issued = [Execute CacheSrc ''SELECT typname, typlen FROM pg_type WHERE oid=23'',
                 Fetch CacheSrc 1]\<rparr>)
   \<and> count_list [Execute CacheSrc ''SELECT typname, typlen FROM pg_type WHERE oid=23'',
                 Fetch CacheSrc 1]
        (Execute CacheSrc (lookup_sql 23)) = 1
   \<and> fst (getdescr flaky_catalog_native sample_env 23 idle_state)
        = Inl (Exc OperationalError ''server closed the connection'')
   \<and> type_cache (snd (getdescr flaky_catalog_native sample_env 23 idle_state))
        = type_cache idle_state
   \<and> count_list
        (new_calls (snd (getdescr flaky_catalog_native sample_env 23 idle_state))
           (snd (getdescr flaky_catalog_native sample_env 23
                  (snd (getdescr flaky_catalog_native sample_env 23 idle_state)))))
        (Execute CacheSrc (lookup_sql 23)) = 1"
proof -
  let ?d = "TypeDescr (Some ''int4'') 4"
  let ?l = "[Execute CacheSrc ''SELECT typname, typlen FROM pg_type WHERE oid=23'',
             Fetch CacheSrc 1]"
  let ?s1 = "\<lparr>cnx = Some NativeCnx, tnx = False, type_cache = [23 \<mapsto> ?d], issued = ?l\<rparr>"
  let ?f1 = "\<lparr>cnx = Some NativeCnx, tnx = False, type_cache = Map.empty,
       issued = [Execute CacheSrc ''SELECT typname, typlen FROM pg_type WHERE oid=23'']\<rparr>"
  let ?e = "Exc OperationalError ''server closed the connection''"
  let ?infos = "[(0::int, ''a'', 23::int), (1, ''b'', 23)]"
  let ?ds = "[CursorDescription ''a'' (Some ''int4'') 4, CursorDescription ''b'' (Some ''int4'') 4]"
  have g: "getdescr catalog_native sample_env 23 idle_state = (Inr ?d, ?s1)"
    by (simp add: getdescr_def lookup_sql_23 catalog_native_def quiet_native_def sample_env_def
        idle_state_def descr_of_rows_def)
  have ds: "describe catalog_native sample_env ?infos idle_state = (Inr ?ds, ?s1)"
    by (simp add: g) (simp add: getdescr_def)
  have miss: "type_cache idle_state 23 = None \<and>
      getdescr catalog_native sample_env 23 idle_state = (Inr ?d, ?s1)"
    using g by (simp add: idle_state_def)
  have fail: "type_cache idle_state 23 = None \<and>
      getdescr flaky_catalog_native sample_env 23 idle_state = (Inl ?e, ?f1)"
    using flaky_first_resolve by (simp add: idle_state_def)
  have hit: "type_cache ?s1 23 = Some ?d" by simp
  have nc: "new_calls idle_state ?s1 = ?l" by (simp add: new_calls_def idle_state_def)
  have oids: "23 \<in> column_oids ?infos \<and> type_cache idle_state 23 = None"
    by (simp add: column_oids_def idle_state_def)
  from type_cache_lookup_once_per_success[where s = idle_state and k = 23
      and N = catalog_native and E = sample_env and r = "Inr ?d" and s' = ?s1
      and N' = quiet_native and E' = sample_env
      and infos = ?infos and ds = ?ds and s'' = ?s1] miss ds oids
  have 1: "count_list (new_calls idle_state ?s1) (Execute CacheSrc (lookup_sql 23)) = 1"
    "getdescr quiet_native sample_env 23 ?s1 = (Inr ?d, ?s1)"
    by blast+
  from type_cache_lookup_once_per_success[where s = ?s1 and k = 23 and d = ?d
      and N = quiet_native and E = sample_env] hit
  have 2: "getdescr quiet_native sample_env 23 ?s1 = (Inr ?d, ?s1)" by blast
  from type_cache_lookup_once_per_success[where s = idle_state and k = 23
      and N = flaky_catalog_native and E = sample_env and r = "Inl ?e" and s' = ?f1
      and N' = flaky_catalog_native and E' = sample_env] fail
  have 3: "type_cache ?f1 = type_cache idle_state"
    "count_list (new_calls ?f1 (snd (getdescr flaky_catalog_native sample_env 23 ?f1)))
       (Execute CacheSrc (lookup_sql 23)) = 1"
    by blast+
  from g ds 1 2 3 flaky_first_resolve show ?thesis unfolding nc by simp
qed

text \<open>
  C9 as the specification words it, "exactly once per identifier per Connection
  lifetime", does not hold: on a native connection whose first catalog query fails,
  the first resolution of oid 23 raises and stores nothing, the second one succeeds,
  and the catalog statement for oid 23 has then been issued twice.
\<close>

theorem type_cache_lookup_twice_counterexample:
  "fst (getdescr flaky_catalog_native sample_env 23 idle_state)
     = Inl (Exc OperationalError ''server closed the connection'')
   \<and> type_cache (snd (getdescr flaky_catalog_native sample_env 23 idle_state)) 23 = None
   \<and> fst (getdescr flaky_catalog_native sample_env 23
            (snd (getdescr flaky_catalog_native sample_env 23 idle_state)))
     = Inr (TypeDescr (Some ''int4'') 4)
   \<and> count_list
        (issued (snd (getdescr flaky_catalog_native sample_env 23
                  (snd (getdescr flaky_catalog_native sample_env 23 idle_state)))))
        (Execute CacheSrc ''SELECT typname, typlen FROM pg_type WHERE oid=23'') = 2
   \<and> lookup_sql 23 = ''SELECT typname, typlen FROM pg_type WHERE oid=23''"
  by (simp add: flaky_first_resolve flaky_second_resolve lookup_sql_23)

end
